theory Spec2Isabelle
  imports Complex_Main "HOL-Library.Sublist"
begin

section \<open>Data model\<close>

text \<open>
  Instants are JavaScript \<open>Date\<close> values: milliseconds since the epoch, in UTC.
  Minute and hour quantities computed with moment's \<open>diff(..., unit, true)\<close> are
  fractional; they are modelled as reals.
\<close>

type_synonym instant = int

datatype punchType = IN | OUT

datatype punchSource = NFC | Manual | Admin

text \<open>The PunchLog schema (models/PunchLog.js); absent values are \<open>null\<close> there.\<close>

record punch =
  pid :: nat
  userId :: nat
  punchType :: punchType
  punchTime :: instant
  source :: punchSource
  edited :: bool
  editedBy :: "nat option"
  editedAt :: "instant option"
  editReason :: "string option"
  originalPunchTime :: "instant option"
  originalPunchType :: "punchType option"
  punchNotes :: "string option"

text \<open>A document as \<open>PunchLog.create\<close> builds it: the schema defaults fill the edit fields.\<close>

definition newPunch :: "nat \<Rightarrow> nat \<Rightarrow> punchType \<Rightarrow> instant \<Rightarrow> punchSource \<Rightarrow> string option \<Rightarrow> punch" where
  "newPunch i u ty t src nts =
     \<lparr>pid = i, userId = u, punchType = ty, punchTime = t, source = src,
      edited = False, editedBy = None, editedAt = None, editReason = None,
      originalPunchTime = None, originalPunchType = None, punchNotes = nts\<rparr>"

section \<open>TimeEngine: worked time\<close>

text \<open>\<open>moment(a).diff(moment(b), 'minutes', true)\<close>: the exact difference in minutes.\<close>

definition diffMinutes :: "instant \<Rightarrow> instant \<Rightarrow> real" where
  "diffMinutes a b = real_of_int (a - b) / 60000"

text \<open>
  The \<open>for (const punch of punches)\<close> loop of \<open>calculateWorkedTime\<close>, with its two
  variables \<open>totalMinutes\<close> and \<open>lastInPunch\<close>.
\<close>

fun workedLoop :: "punch list \<Rightarrow> real \<Rightarrow> punch option \<Rightarrow> real \<times> punch option" where
  "workedLoop [] totalMinutes lastInPunch = (totalMinutes, lastInPunch)"
| "workedLoop (p # ps) totalMinutes lastInPunch =
     (if punchType p = IN then workedLoop ps totalMinutes (Some p)
      else (case lastInPunch of
              None \<Rightarrow> workedLoop ps totalMinutes None
            | Some l \<Rightarrow>
                (let duration = diffMinutes (punchTime p) (punchTime l)
                 in if duration > 1440 then workedLoop ps totalMinutes None
                    else workedLoop ps (totalMinutes + duration) None)))"

definition calculateWorkedTime :: "instant \<Rightarrow> punch list \<Rightarrow> bool \<Rightarrow> real" where
  "calculateWorkedTime now punches includeOpenPunch =
     (case workedLoop punches 0 None of
        (totalMinutes, lastInPunch) \<Rightarrow>
          max 0
            (case lastInPunch of
               None \<Rightarrow> totalMinutes
             | Some l \<Rightarrow>
                 if includeOpenPunch
                 then (let duration = diffMinutes now (punchTime l)
                       in if duration \<le> 960 then totalMinutes + duration
                          else totalMinutes + 480)
                 else totalMinutes))"

subsection \<open>The reference algorithm of the specification\<close>

text \<open>
  Section 4.3 in its own words: a scan that tracks \<open>pendingIn\<close> (the instant of the
  unmatched IN, if any) and the accumulated total. Only the type and the time of a
  punch matter to it.
\<close>

record scanState =
  pendingIn :: "instant option"
  total :: real

definition specStep :: "scanState \<Rightarrow> punchType \<times> instant \<Rightarrow> scanState" where
  "specStep s e =
     (case e of
        (IN, t) \<Rightarrow> s\<lparr>pendingIn := Some t\<rparr>
      | (OUT, t) \<Rightarrow>
          (case pendingIn s of
             None \<Rightarrow> s
           | Some t0 \<Rightarrow>
               if real_of_int (t - t0) / 60000 > 1440
               then s\<lparr>pendingIn := None\<rparr>
               else \<lparr>pendingIn = None, total = total s + real_of_int (t - t0) / 60000\<rparr>))"

definition specOpenSession :: "instant \<Rightarrow> instant \<Rightarrow> real" where
  "specOpenSession now t0 =
     (if real_of_int (now - t0) / 60000 \<le> 960 then real_of_int (now - t0) / 60000 else 480)"

definition calculateWorkedMinutes_spec :: "instant \<Rightarrow> (punchType \<times> instant) list \<Rightarrow> bool \<Rightarrow> real" where
  "calculateWorkedMinutes_spec now events includeOpenSession =
     (let s = foldl specStep \<lparr>pendingIn = None, total = 0\<rparr> events;
          extra = (case pendingIn s of
                     Some t0 \<Rightarrow> if includeOpenSession then specOpenSession now t0 else 0
                   | None \<Rightarrow> 0)
      in max 0 (total s + extra))"

definition eventOf :: "punch \<Rightarrow> punchType \<times> instant" where
  "eventOf p = (punchType p, punchTime p)"

section \<open>Time zones and clock arithmetic\<close>

text \<open>
  moment-timezone is an external library. A zone is modelled by its offset from UTC in
  minutes (Asia/Kolkata, the configured default, is 330), so the model covers zones
  without a change of offset inside the period looked at. \<open>localMillis\<close> is the wall
  clock of the zone, in milliseconds since the local epoch.
\<close>

type_synonym timezone = int

definition localMillis :: "timezone \<Rightarrow> instant \<Rightarrow> int" where
  "localMillis tz t = t + tz * 60000"

text \<open>\<open>moment(t).tz(tz).startOf('day')\<close> and \<open>.endOf('day')\<close>, as UTC instants.\<close>

definition startOfDay :: "timezone \<Rightarrow> instant \<Rightarrow> instant" where
  "startOfDay tz t = (localMillis tz t div 86400000) * 86400000 - tz * 60000"

definition endOfDay :: "timezone \<Rightarrow> instant \<Rightarrow> instant" where
  "endOfDay tz t = startOfDay tz t + 86399999"

text \<open>\<open>.hour()\<close> and \<open>.minute()\<close> of a moment in the zone.\<close>

definition hourOf :: "timezone \<Rightarrow> instant \<Rightarrow> int" where
  "hourOf tz t = (localMillis tz t div 3600000) mod 24"

definition minuteOf :: "timezone \<Rightarrow> instant \<Rightarrow> int" where
  "minuteOf tz t = (localMillis tz t div 60000) mod 60"

text \<open>\<open>.format('dddd')\<close>: 1 January 1970 was a Thursday.\<close>

definition weekdayNames :: "string list" where
  "weekdayNames = [''Sunday'', ''Monday'', ''Tuesday'', ''Wednesday'', ''Thursday'',
                   ''Friday'', ''Saturday'']"

definition weekdayIndex :: "timezone \<Rightarrow> instant \<Rightarrow> nat" where
  "weekdayIndex tz t = nat ((localMillis tz t div 86400000 + 4) mod 7)"

definition dayName :: "timezone \<Rightarrow> instant \<Rightarrow> string" where
  "dayName tz t = weekdayNames ! weekdayIndex tz t"

text \<open>
  \<open>a.diff(b, unit)\<close> without the third argument truncates towards zero;
  with \<open>true\<close> it is exact.
\<close>

definition truncDiv :: "int \<Rightarrow> int \<Rightarrow> int" where
  "truncDiv a b = (if a < 0 then - ((- a) div b) else a div b)"


definition diffMinutesTrunc :: "instant \<Rightarrow> instant \<Rightarrow> int" where
  "diffMinutesTrunc a b = truncDiv (a - b) 60000"

definition diffHours :: "instant \<Rightarrow> instant \<Rightarrow> real" where
  "diffHours a b = real_of_int (a - b) / 3600000"

section \<open>Users and configuration\<close>

datatype role = RoleAdmin | RoleUser

text \<open>
  A time of day written \<open>'HH:MM'\<close>, after \<open>split(':').map(Number)\<close>: hour and minute.
\<close>

type_synonym hhmm = "int \<times> int"

record businessHours =
  bhStart :: hhmm
  bhEnd :: hhmm

text \<open>Profile fields are optional: an absent one is \<open>undefined\<close> in the source.\<close>

record profile =
  timezone :: "timezone option"
  dailyWorkTarget :: "real option"
  workingDays :: "string list option"
  profBusinessHours :: "businessHours option"
  graceMinutes :: "int option"
  shiftStartTime :: "hhmm option"
  minimumWorkHours :: "real option"

record user =
  uid :: nat
  userName :: string
  email :: string
  role :: role
  userProfile :: "profile option"

text \<open>\<open>config.defaults\<close>.\<close>

record config =
  defaultTimezone :: timezone
  defaultWorkHours :: int
  defaultWorkingDays :: "string list"
  defaultBusinessHours :: "businessHours option"

text \<open>\<open>user?.profile?.field\<close>.\<close>

definition profileField :: "(profile \<Rightarrow> 'a option) \<Rightarrow> user \<Rightarrow> 'a option" where
  "profileField f u = (case userProfile u of None \<Rightarrow> None | Some p \<Rightarrow> f p)"

definition getTimezone :: "config \<Rightarrow> user \<Rightarrow> timezone" where
  "getTimezone cfg u =
     (case profileField timezone u of Some tz \<Rightarrow> tz | None \<Rightarrow> defaultTimezone cfg)"

text \<open>\<open>dailyWorkTarget || workHours * 60\<close>: a target of 0 is falsy and gives the default.\<close>

definition getDailyWorkTarget :: "config \<Rightarrow> user \<Rightarrow> real" where
  "getDailyWorkTarget cfg u =
     (case profileField dailyWorkTarget u of
        Some t \<Rightarrow> if t = 0 then real_of_int (defaultWorkHours cfg * 60) else t
      | None \<Rightarrow> real_of_int (defaultWorkHours cfg * 60))"

section \<open>The punch log\<close>

text \<open>
  The PunchLog collection is a list of documents in insertion order. A query sorted by
  \<open>punchTime\<close> keeps that order among equal times.
\<close>

definition findInRange :: "punch list \<Rightarrow> nat \<Rightarrow> instant \<Rightarrow> instant \<Rightarrow> punch list" where
  "findInRange store u startT endT =
     sort_key punchTime
       (filter (\<lambda>p. userId p = u \<and> startT \<le> punchTime p \<and> punchTime p \<le> endT) store)"

definition getTodayPunches :: "punch list \<Rightarrow> nat \<Rightarrow> timezone \<Rightarrow> instant \<Rightarrow> punch list" where
  "getTodayPunches store u tz now = findInRange store u (startOfDay tz now) (endOfDay tz now)"

text \<open>\<open>PunchLog.findOne({ userId }).sort({ punchTime: -1 })\<close>: over all days.\<close>

definition getLastPunch :: "punch list \<Rightarrow> nat \<Rightarrow> punch option" where
  "getLastPunch store u =
     (case sort_key (\<lambda>p. - punchTime p) (filter (\<lambda>p. userId p = u) store) of
        [] \<Rightarrow> None
      | p # _ \<Rightarrow> Some p)"

definition getNextPunchType :: "punch list \<Rightarrow> nat \<Rightarrow> punchType" where
  "getNextPunchType store u =
     (case getLastPunch store u of
        None \<Rightarrow> IN
      | Some lastPunch \<Rightarrow> if punchType lastPunch = IN then OUT else IN)"


definition calculateRemainingTime :: "real \<Rightarrow> real \<Rightarrow> real" where
  "calculateRemainingTime totalWorkedMinutes dailyTargetMinutes =
     max 0 (dailyTargetMinutes - totalWorkedMinutes)"

section \<open>PunchValidator\<close>

datatype sequenceResult = SequenceValid | SequenceError string

definition punchTypeName :: "punchType \<Rightarrow> string" where
  "punchTypeName ty = (case ty of IN \<Rightarrow> ''IN'' | OUT \<Rightarrow> ''OUT'')"

definition validatePunchSequence ::
  "punch list \<Rightarrow> nat \<Rightarrow> punchType \<Rightarrow> timezone \<Rightarrow> instant \<Rightarrow> sequenceResult" where
  "validatePunchSequence store u newPunchType tz now =
     (let todayPunches = getTodayPunches store u tz now
      in if length todayPunches = 0
         then (if newPunchType \<noteq> IN
               then SequenceError ''First punch of the day must be IN''
               else SequenceValid)
         else (let lastPunch = last todayPunches
               in if punchType lastPunch = newPunchType
                  then SequenceError
                         (''Cannot punch '' @ punchTypeName newPunchType @ '' twice in a row'')
                  else SequenceValid))"

text \<open>
  The result objects of the checks carry a formatted message as well; the model keeps the
  fields that callers branch on.
\<close>

record businessHoursResult =
  bhValid :: bool
  requiresApproval :: bool

definition fallbackBusinessHours :: businessHours where
  "fallbackBusinessHours = \<lparr>bhStart = (6, 0), bhEnd = (23, 59)\<rparr>"

definition validateBusinessHours ::
  "config \<Rightarrow> instant \<Rightarrow> timezone \<Rightarrow> businessHours option \<Rightarrow> businessHoursResult" where
  "validateBusinessHours cfg punchT tz businessHoursArg =
     (let bh = (case businessHoursArg of
                  Some b \<Rightarrow> b
                | None \<Rightarrow> (case defaultBusinessHours cfg of
                             Some b \<Rightarrow> b
                           | None \<Rightarrow> fallbackBusinessHours));
          punchMinutes = hourOf tz punchT * 60 + minuteOf tz punchT;
          startMinutes = fst (bhStart bh) * 60 + snd (bhStart bh);
          endMinutes = fst (bhEnd bh) * 60 + snd (bhEnd bh)
      in if punchMinutes < startMinutes \<or> punchMinutes > endMinutes
         then \<lparr>bhValid = False, requiresApproval = True\<rparr>
         else \<lparr>bhValid = True, requiresApproval = False\<rparr>)"






text \<open>\<open>Math.round(x * 100) / 100\<close>; \<open>Math.round\<close> rounds a half upwards, as \<open>round\<close> does.\<close>

definition round2 :: "real \<Rightarrow> real" where
  "round2 x = real_of_int (round (x * 100)) / 100"



subsection \<open>Issue detection\<close>

datatype issueType = ODD_PUNCH_COUNT | LONG_OPEN_PUNCH | SHORT_SESSION | MULTIPLE_SESSIONS

datatype severity = Info | Warning | Error

text \<open>
  An issue: its type, its severity, and the number its message shows (the punch count,
  the rounded hours, the minutes of the session, the session count). For a short session
  the two instants of the description follow.
\<close>

record issue =
  issueType :: issueType
  issueSeverity :: severity
  issueNumber :: int
  issueFrom :: "instant option"
  issueTo :: "instant option"

text \<open>
  The loop \<open>for (let i = 0; i < todayPunches.length - 1; i += 2)\<close>. Inside it both
  \<open>i\<close> and \<open>i + 1\<close> are in range.
\<close>

function shortSessionLoop :: "punch list \<Rightarrow> nat \<Rightarrow> issue list \<Rightarrow> issue list" where
  "shortSessionLoop todayPunches i issues =
     (if int i < int (length todayPunches) - 1
      then (if punchType (todayPunches ! i) = IN \<and> punchType (todayPunches ! (i + 1)) = OUT
            then (let duration = diffMinutesTrunc (punchTime (todayPunches ! (i + 1)))
                                   (punchTime (todayPunches ! i))
                  in if duration < 30
                     then shortSessionLoop todayPunches (i + 2)
                            (issues @ [\<lparr>issueType = SHORT_SESSION, issueSeverity = Info,
                                        issueNumber = duration,
                                        issueFrom = Some (punchTime (todayPunches ! i)),
                                        issueTo = Some (punchTime (todayPunches ! (i + 1)))\<rparr>])
                     else shortSessionLoop todayPunches (i + 2) issues)
            else shortSessionLoop todayPunches (i + 2) issues)
      else issues)"
  by pat_completeness auto
termination
  by (relation "measure (\<lambda>(ps, i, acc). length ps - i)") auto

declare shortSessionLoop.simps [simp del]

definition detectPunchIssues :: "punch list \<Rightarrow> nat \<Rightarrow> timezone \<Rightarrow> instant \<Rightarrow> issue list" where
  "detectPunchIssues store u tz now =
     (let todayPunches = getTodayPunches store u tz now;
          issues1 =
            (if length todayPunches > 0 \<and> length todayPunches mod 2 \<noteq> 0
             then [\<lparr>issueType = ODD_PUNCH_COUNT, issueSeverity = Warning,
                    issueNumber = int (length todayPunches),
                    issueFrom = None, issueTo = None\<rparr>]
             else []);
          issues2 =
            (if length todayPunches > 0
             then (let lastPunch = last todayPunches
                   in if punchType lastPunch = IN
                      then (let hoursSinceIn = diffHours now (punchTime lastPunch)
                            in if hoursSinceIn > 12
                               then issues1 @
                                    [\<lparr>issueType = LONG_OPEN_PUNCH, issueSeverity = Error,
                                      issueNumber = round hoursSinceIn,
                                      issueFrom = Some (punchTime lastPunch), issueTo = None\<rparr>]
                               else issues1)
                      else issues1)
             else issues1);
          issues3 = shortSessionLoop todayPunches 0 issues2;
          sessionCount = length todayPunches div 2
      in if sessionCount > 3
         then issues3 @ [\<lparr>issueType = MULTIPLE_SESSIONS, issueSeverity = Info,
                          issueNumber = int sessionCount, issueFrom = None, issueTo = None\<rparr>]
         else issues3)"

subsection \<open>Vocabulary for the short-session scan\<close>

text \<open>
  The pair of punches at positions \<open>j\<close> and \<open>j + 1\<close> of a list is a short session when
  it is an IN followed by an OUT less than 30 (truncated) minutes later;
  \<open>shortSessionAt\<close> is the issue reported for it.
\<close>

definition isShortPair :: "punch list \<Rightarrow> nat \<Rightarrow> bool" where
  "isShortPair ps j =
     (j + 1 < length ps \<and> punchType (ps ! j) = IN \<and> punchType (ps ! (j + 1)) = OUT
      \<and> diffMinutesTrunc (punchTime (ps ! (j + 1))) (punchTime (ps ! j)) < 30)"

definition shortSessionAt :: "punch list \<Rightarrow> nat \<Rightarrow> issue" where
  "shortSessionAt ps j =
     \<lparr>issueType = SHORT_SESSION, issueSeverity = Info,
      issueNumber = diffMinutesTrunc (punchTime (ps ! (j + 1))) (punchTime (ps ! j)),
      issueFrom = Some (punchTime (ps ! j)),
      issueTo = Some (punchTime (ps ! (j + 1)))\<rparr>"

subsection \<open>Comprehensive validation\<close>










section \<open>PunchService: creating a punch\<close>

datatype error =
  DoublePunchError
  | ValidationError string
  | NfcUidRequired
  | NfcTagNotFound
  | NfcTagNotRegistered
  | PunchNotFound
  | NotAuthorized
  | DatabaseError nat









text \<open>The identifier of a new document: one that no stored punch has.\<close>

definition freshId :: "punch list \<Rightarrow> nat" where
  "freshId store = Suc (fold max (map pid store) 0)"



section \<open>PunchService: editing a punch\<close>

record editData =
  edPunchTime :: "instant option"
  edPunchType :: "punchType option"
  edEditReason :: "string option"

datatype auditAction = PUNCH_EDIT | PUNCH_DELETE

record auditEntry =
  auAction :: auditAction
  auPerformedBy :: nat
  auTargetUser :: nat
  auResourceId :: nat
  auPreviousState :: "(instant \<times> punchType) option"
  auNewState :: "(instant \<times> punchType) option"
  auDescription :: "string option"

definition findById :: "punch list \<Rightarrow> nat \<Rightarrow> punch option" where
  "findById store punchId = find (\<lambda>p. pid p = punchId) store"

text \<open>\<open>punch.save()\<close>: the stored document with the identifier of \<open>q\<close> becomes \<open>q\<close>.\<close>

fun savePunch :: "punch \<Rightarrow> punch list \<Rightarrow> punch list" where
  "savePunch q [] = []"
| "savePunch q (p # ps) = (if pid p = pid q then q # ps else p # savePunch q ps)"

text \<open>
  \<open>editPunch\<close>. \<open>a || b\<close> on the original fields keeps a value that is already there
  (a Date object or a non-empty string is truthy) and takes the current one otherwise;
  \<open>if (punchTime)\<close> and \<open>if (punchType)\<close> test whether the edit supplies the field.
\<close>

definition editPunch ::
  "punch list \<Rightarrow> auditEntry list \<Rightarrow> instant \<Rightarrow> nat \<Rightarrow> editData \<Rightarrow> user
   \<Rightarrow> error + (punch \<times> punch list \<times> auditEntry list)" where
  "editPunch store audit now punchId ed performedBy =
     (case findById store punchId of
        None \<Rightarrow> Inl PunchNotFound
      | Some punch \<Rightarrow>
          if role performedBy \<noteq> RoleAdmin \<and> userId punch \<noteq> uid performedBy
          then Inl NotAuthorized
          else
            (let previousState = (punchTime punch, punchType punch);
                 p1 = punch\<lparr>originalPunchTime :=
                               (case originalPunchTime punch of
                                  Some t \<Rightarrow> Some t
                                | None \<Rightarrow> Some (punchTime punch))\<rparr>;
                 p2 = p1\<lparr>originalPunchType :=
                            (case originalPunchType p1 of
                               Some ty \<Rightarrow> Some ty
                             | None \<Rightarrow> Some (punchType p1))\<rparr>;
                 p3 = (case edPunchTime ed of Some t \<Rightarrow> p2\<lparr>punchTime := t\<rparr> | None \<Rightarrow> p2);
                 p4 = (case edPunchType ed of Some ty \<Rightarrow> p3\<lparr>punchType := ty\<rparr> | None \<Rightarrow> p3);
                 p5 = p4\<lparr>edited := True, editedBy := Some (uid performedBy),
                         editedAt := Some now, editReason := edEditReason ed\<rparr>
             in Inr (p5, savePunch p5 store,
                     audit @ [\<lparr>auAction = PUNCH_EDIT, auPerformedBy = uid performedBy,
                               auTargetUser = userId p5, auResourceId = pid p5,
                               auPreviousState = Some previousState,
                               auNewState = Some (punchTime p5, punchType p5),
                               auDescription = edEditReason ed\<rparr>])))"

text \<open>
  Successive edits of one punch: each edit is a call of \<open>editPunch\<close> on the state the
  previous one left; the first failing call ends the run with its error.
\<close>

fun editPunches ::
  "punch list \<times> auditEntry list \<Rightarrow> nat \<Rightarrow> (instant \<times> editData \<times> user) list
   \<Rightarrow> error + (punch list \<times> auditEntry list)" where
  "editPunches st punchId [] = Inr st"
| "editPunches st punchId ((now, ed, performedBy) # rest) =
     (case editPunch (fst st) (snd st) now punchId ed performedBy of
        Inl e \<Rightarrow> Inl e
      | Inr (p, store', audit') \<Rightarrow> editPunches (store', audit') punchId rest)"

section \<open>PunchCleanupService: orphaned punches\<close>

text \<open>
  The service works on the users that \<open>User.find({ status: 'Active' })\<close> returns; that
  list is an argument of the model.
\<close>

record orphan =
  orPunchId :: nat
  orUserId :: nat
  orUserName :: string
  orPunchType :: punchType
  orPunchTime :: instant
  orReason :: string

text \<open>The inner loop over one user's punches, with \<open>expectedNext\<close>.\<close>

fun orphanScan :: "user \<Rightarrow> punch list \<Rightarrow> punchType \<Rightarrow> orphan list \<Rightarrow> orphan list" where
  "orphanScan u [] expectedNext orphanedPunches = orphanedPunches"
| "orphanScan u (p # ps) expectedNext orphanedPunches =
     orphanScan u ps (if punchType p = IN then OUT else IN)
       (if punchType p \<noteq> expectedNext
        then orphanedPunches @
             [\<lparr>orPunchId = pid p, orUserId = uid u, orUserName = userName u,
               orPunchType = punchType p, orPunchTime = punchTime p,
               orReason = ''Expected '' @ punchTypeName expectedNext @ '' but got ''
                          @ punchTypeName (punchType p)\<rparr>]
        else orphanedPunches)"

text \<open>The outer loop over the users: the punches of the last 30 days, in time order.\<close>

fun orphanUsers ::
  "config \<Rightarrow> punch list \<Rightarrow> instant \<Rightarrow> user list \<Rightarrow> orphan list \<Rightarrow> orphan list" where
  "orphanUsers cfg store now [] orphanedPunches = orphanedPunches"
| "orphanUsers cfg store now (u # us) orphanedPunches =
     (let tz = (case profileField timezone u of Some z \<Rightarrow> z | None \<Rightarrow> defaultTimezone cfg);
          startDate = startOfDay tz (now - 30 * 86400000);
          endDate = endOfDay tz now;
          punches = findInRange store (uid u) startDate endDate
      in orphanUsers cfg store now us (orphanScan u punches IN orphanedPunches))"

text \<open>
  \<open>PunchLog.findByIdAndUpdate(id, { notes: text })\<close>: the document with that identifier
  gets the new \<open>notes\<close>.
\<close>

fun findByIdAndUpdateNotes :: "nat \<Rightarrow> string \<Rightarrow> punch list \<Rightarrow> punch list" where
  "findByIdAndUpdateNotes i text [] = []"
| "findByIdAndUpdateNotes i text (p # ps) =
     (if pid p = i then p\<lparr>punchNotes := Some text\<rparr> # ps
      else p # findByIdAndUpdateNotes i text ps)"

definition orphanNote :: "orphan \<Rightarrow> string" where
  "orphanNote orph =
     ''[SYSTEM] Orphaned '' @ punchTypeName (orPunchType orph) @ '' punch - '' @ orReason orph"

fun markOrphans :: "orphan list \<Rightarrow> punch list \<Rightarrow> punch list" where
  "markOrphans [] store = store"
| "markOrphans (orph # rest) store =
     markOrphans rest (findByIdAndUpdateNotes (orPunchId orph) (orphanNote orph) store)"

record cleanupResult =
  crSuccess :: bool
  orphanedPunches :: "orphan list"
  crDryRun :: bool

definition cleanupOrphanedPunches ::
  "config \<Rightarrow> user list \<Rightarrow> punch list \<Rightarrow> instant \<Rightarrow> bool \<Rightarrow> cleanupResult \<times> punch list" where
  "cleanupOrphanedPunches cfg users store now dryRun =
     (let orphans = orphanUsers cfg store now users []
      in (\<lparr>crSuccess = True, orphanedPunches = orphans, crDryRun = dryRun\<rparr>,
          if \<not> dryRun \<and> length orphans > 0 then markOrphans orphans store else store))"

section \<open>PunchCleanupService: closing open punches\<close>

text \<open>
  What can fail in the job are the calls to its collaborators: reading a user's punches
  (\<open>PunchLog.find\<close>), writing the closing punch (\<open>PunchLog.create\<close>) and sending the
  e-mail. \<open>faults\<close> says for which user each of them throws.
\<close>

record faults =
  findFails :: "nat \<Rightarrow> bool"
  createFails :: "nat \<Rightarrow> bool"
  emailFails :: "nat \<Rightarrow> bool"

datatype logEntry =
  InfoStarting
  | InfoAutoClosed nat
  | ErrorNotification nat
  | InfoCompleted nat
  | ErrorAutoClose error

record notification =
  noUser :: user
  inPunchTime :: instant
  outPunchTime :: instant

text \<open>The variables of the job: the punch log, \<open>closedCount\<close>, the queue, the logger.\<close>

record jobState =
  jsStore :: "punch list"
  closedCount :: nat
  notifications :: "notification list"
  jsLog :: "logEntry list"

text \<open>
  The loop \<open>for (const user of users)\<close>. It has no handler of its own: the first
  exception leaves the loop, with what was written so far still written.
\<close>

fun autoCloseUsers ::
  "faults \<Rightarrow> config \<Rightarrow> instant \<Rightarrow> user list \<Rightarrow> jobState \<Rightarrow> error option \<times> jobState" where
  "autoCloseUsers f cfg now [] st = (None, st)"
| "autoCloseUsers f cfg now (u # us) st =
     (let tz = (case profileField timezone u of Some z \<Rightarrow> z | None \<Rightarrow> defaultTimezone cfg)
      in if findFails f (uid u) then (Some (DatabaseError (uid u)), st)
         else
           (let todayPunches =
                  findInRange (jsStore st) (uid u) (startOfDay tz now) (endOfDay tz now)
            in if length todayPunches > 0
               then (let lastPunch = last todayPunches
                     in if punchType lastPunch = IN
                        then (let autoCloseTime = endOfDay tz now - 60000
                              in if createFails f (uid u)
                                 then (Some (DatabaseError (uid u)), st)
                                 else
                                   (let autoPunch =
                                          newPunch (freshId (jsStore st)) (uid u) OUT
                                            autoCloseTime Admin
                                            (Some ''Auto-closed by system at midnight (missed punch out)'')
                                    in autoCloseUsers f cfg now us
                                         (st\<lparr>jsStore := jsStore st @ [autoPunch],
                                             closedCount := closedCount st + 1,
                                             jsLog := jsLog st @ [InfoAutoClosed (uid u)],
                                             notifications := notifications st @
                                               [\<lparr>noUser = u, inPunchTime = punchTime lastPunch,
                                                 outPunchTime = punchTime autoPunch\<rparr>]\<rparr>)))
                        else autoCloseUsers f cfg now us st)
               else autoCloseUsers f cfg now us st))"

text \<open>The loop over the queue: each send has its own \<open>try\<close> and \<open>catch\<close>.\<close>

fun sendNotifications :: "faults \<Rightarrow> notification list \<Rightarrow> logEntry list \<Rightarrow> logEntry list" where
  "sendNotifications f [] lg = lg"
| "sendNotifications f (n # ns) lg =
     sendNotifications f ns
       (if emailFails f (uid (noUser n)) then lg @ [ErrorNotification (uid (noUser n))] else lg)"

record autoCloseResult =
  acSuccess :: bool
  acClosedCount :: nat
  notificationsSent :: nat

text \<open>
  \<open>autoCloseOpenPunches\<close>: the outer \<open>catch\<close> logs the error and throws it again. The
  punch log and the logger's lines are returned beside the result.
\<close>

definition autoCloseOpenPunches ::
  "faults \<Rightarrow> config \<Rightarrow> user list \<Rightarrow> punch list \<Rightarrow> instant
   \<Rightarrow> (error + autoCloseResult) \<times> punch list \<times> logEntry list" where
  "autoCloseOpenPunches f cfg users store now =
     (case autoCloseUsers f cfg now users
             \<lparr>jsStore = store, closedCount = 0, notifications = [], jsLog = [InfoStarting]\<rparr> of
        (Some e, st) \<Rightarrow> (Inl e, jsStore st, jsLog st @ [ErrorAutoClose e])
      | (None, st) \<Rightarrow>
          (Inr \<lparr>acSuccess = True, acClosedCount = closedCount st,
                notificationsSent = length (notifications st)\<rparr>,
           jsStore st,
           sendNotifications f (notifications st) (jsLog st) @ [InfoCompleted (closedCount st)]))"

text \<open>
  Vocabulary: the user's last punch of today is an IN, and a call made for the user
  throws, given the punch log at the moment the user is reached.
\<close>

definition hasOpenPunchToday :: "config \<Rightarrow> instant \<Rightarrow> punch list \<Rightarrow> user \<Rightarrow> bool" where
  "hasOpenPunchToday cfg now store u =
     (let tz = (case profileField timezone u of Some z \<Rightarrow> z | None \<Rightarrow> defaultTimezone cfg);
          todayPunches = findInRange store (uid u) (startOfDay tz now) (endOfDay tz now)
      in length todayPunches > 0 \<and> punchType (last todayPunches) = IN)"

definition userFails :: "faults \<Rightarrow> config \<Rightarrow> instant \<Rightarrow> punch list \<Rightarrow> user \<Rightarrow> bool" where
  "userFails f cfg now store u =
     (findFails f (uid u) \<or> (createFails f (uid u) \<and> hasOpenPunchToday cfg now store u))"

section \<open>TimeEngine: the weekly summary\<close>

text \<open>
  JavaScript numbers are modelled as reals; the values a division by zero produces are
  made explicit.
\<close>

datatype jsNumber = Num real | NaN | PosInfinity | NegInfinity

text \<open>\<open>a / b\<close> for a divisor that is not the negative zero.\<close>

definition jsDivide :: "real \<Rightarrow> real \<Rightarrow> jsNumber" where
  "jsDivide a b =
     (if b \<noteq> 0 then Num (a / b)
      else if a = 0 then NaN
      else if a > 0 then PosInfinity else NegInfinity)"

definition jsTimes :: "jsNumber \<Rightarrow> real \<Rightarrow> jsNumber" where
  "jsTimes x c = (case x of Num r \<Rightarrow> Num (r * c) | other \<Rightarrow> other)"

text \<open>\<open>Math.round\<close> and \<open>Math.min(100, x)\<close>; a NaN argument gives NaN.\<close>

definition jsRound :: "jsNumber \<Rightarrow> jsNumber" where
  "jsRound x = (case x of Num r \<Rightarrow> Num (real_of_int (round r)) | other \<Rightarrow> other)"

definition jsMin100 :: "jsNumber \<Rightarrow> jsNumber" where
  "jsMin100 x =
     (case x of
        Num r \<Rightarrow> Num (min 100 r)
      | NaN \<Rightarrow> NaN
      | PosInfinity \<Rightarrow> Num 100
      | NegInfinity \<Rightarrow> NegInfinity)"

text \<open>
  An entry of \<open>dailyData\<close>; the day is kept as the instant of its local midnight, its
  formatted date and the formatted minutes are left out.
\<close>

record dayEntry =
  deDay :: instant
  deDayName :: string
  isWorkingDay :: bool
  workedMinutes :: real
  targetMinutes :: real
  punchCount :: nat
  isTargetMet :: bool

record weeklySummary =
  weekStart :: instant
  weekEnd :: instant
  totalWorkedMinutes :: real
  weeklyTargetMinutes :: real
  progressPercent :: jsNumber
  workingDaysCount :: nat
  dailyData :: "dayEntry list"

text \<open>
  \<open>moment().tz(tz).subtract(weekOffset, 'weeks').startOf('week')\<close>: the week starts on
  Sunday (moment's default locale).
\<close>

definition startOfWeek :: "timezone \<Rightarrow> instant \<Rightarrow> int \<Rightarrow> instant" where
  "startOfWeek tz now weekOffset =
     (let t = now - weekOffset * 604800000
      in startOfDay tz t - int (weekdayIndex tz t) * 86400000)"

definition getPunchesInRange ::
  "punch list \<Rightarrow> nat \<Rightarrow> instant \<Rightarrow> instant \<Rightarrow> timezone \<Rightarrow> punch list" where
  "getPunchesInRange store u startDate endDate tz =
     findInRange store u (startOfDay tz startDate) (endOfDay tz endDate)"

text \<open>
  The loop \<open>for (let i = 0; i < 7; i++)\<close> with \<open>dailyData\<close>, \<open>totalWeekMinutes\<close> and
  \<open>workingDaysCount\<close>. \<open>day.isSame(moment(), 'day')\<close> holds when \<open>now\<close> lies between
  the start and the end of the day.
\<close>

function weekLoop ::
  "timezone \<Rightarrow> instant \<Rightarrow> instant \<Rightarrow> punch list \<Rightarrow> string list \<Rightarrow> real \<Rightarrow> nat
   \<Rightarrow> dayEntry list \<times> real \<times> nat \<Rightarrow> dayEntry list \<times> real \<times> nat" where
  "weekLoop tz now weekStartT punches wds dailyTarget i acc =
     (if i < 7
      then (let day = weekStartT + int i * 86400000;
                name = dayName tz day;
                working = (name \<in> set wds);
                dayStart = startOfDay tz day;
                dayEnd = endOfDay tz day;
                dayPunches = filter (\<lambda>p. punchTime p \<ge> dayStart \<and> punchTime p \<le> dayEnd) punches;
                worked = calculateWorkedTime now dayPunches (dayStart \<le> now \<and> now \<le> dayEnd)
            in weekLoop tz now weekStartT punches wds dailyTarget (i + 1)
                 (fst acc @
                    [\<lparr>deDay = day, deDayName = name, isWorkingDay = working,
                      workedMinutes = round2 worked,
                      targetMinutes = (if working then dailyTarget else 0),
                      punchCount = length dayPunches,
                      isTargetMet = (worked \<ge> dailyTarget)\<rparr>],
                  if working then fst (snd acc) + worked else fst (snd acc),
                  if working then snd (snd acc) + 1 else snd (snd acc)))
      else acc)"
  by pat_completeness auto
termination
  by (relation "measure (\<lambda>(tz, now, ws, ps, wds, target, i, acc). 7 - i)") auto

declare weekLoop.simps [simp del]

definition getWeeklySummary :: "config \<Rightarrow> punch list \<Rightarrow> instant \<Rightarrow> user \<Rightarrow> int \<Rightarrow> weeklySummary" where
  "getWeeklySummary cfg store now u weekOffset =
     (let tz = getTimezone cfg u;
          dailyTarget = getDailyWorkTarget cfg u;
          wds = (case profileField workingDays u of
                   Some w \<Rightarrow> w
                 | None \<Rightarrow> defaultWorkingDays cfg);
          weekStartT = startOfWeek tz now weekOffset;
          weekEndT = weekStartT + 7 * 86400000 - 1;
          punches = getPunchesInRange store (uid u) weekStartT weekEndT tz;
          result = weekLoop tz now weekStartT punches wds dailyTarget 0 ([], 0, 0);
          totalWeekMinutes = fst (snd result);
          count = snd (snd result);
          weeklyTarget = real count * dailyTarget
      in \<lparr>weekStart = weekStartT, weekEnd = weekEndT,
          totalWorkedMinutes = round2 totalWeekMinutes,
          weeklyTargetMinutes = weeklyTarget,
          progressPercent = jsMin100 (jsRound (jsTimes (jsDivide totalWeekMinutes weeklyTarget) 100)),
          workingDaysCount = count,
          dailyData = fst result\<rparr>)"

text \<open>
  Vocabulary for the days of the week of a summary: the day at position \<open>i\<close>, the
  minutes worked on it, whether the working days name it, and its entry.
\<close>

definition loopWorked :: "timezone \<Rightarrow> instant \<Rightarrow> instant \<Rightarrow> punch list \<Rightarrow> nat \<Rightarrow> real" where
  "loopWorked tz now weekStartT punches i =
     (let day = weekStartT + int i * 86400000
      in calculateWorkedTime now
           (filter (\<lambda>p. punchTime p \<ge> startOfDay tz day \<and> punchTime p \<le> endOfDay tz day)
              punches)
           (startOfDay tz day \<le> now \<and> now \<le> endOfDay tz day))"

definition loopWorking :: "timezone \<Rightarrow> instant \<Rightarrow> string list \<Rightarrow> nat \<Rightarrow> bool" where
  "loopWorking tz weekStartT wds i = (dayName tz (weekStartT + int i * 86400000) \<in> set wds)"

definition loopEntry ::
  "timezone \<Rightarrow> instant \<Rightarrow> instant \<Rightarrow> punch list \<Rightarrow> string list \<Rightarrow> real \<Rightarrow> nat \<Rightarrow> dayEntry" where
  "loopEntry tz now weekStartT punches wds dailyTarget i =
     (let day = weekStartT + int i * 86400000
      in \<lparr>deDay = day, deDayName = dayName tz day,
          isWorkingDay = loopWorking tz weekStartT wds i,
          workedMinutes = round2 (loopWorked tz now weekStartT punches i),
          targetMinutes = (if loopWorking tz weekStartT wds i then dailyTarget else 0),
          punchCount =
            length (filter (\<lambda>p. punchTime p \<ge> startOfDay tz day \<and> punchTime p \<le> endOfDay tz day)
                      punches),
          isTargetMet = (loopWorked tz now weekStartT punches i \<ge> dailyTarget)\<rparr>)"

definition userWorkingDays :: "config \<Rightarrow> user \<Rightarrow> string list" where
  "userWorkingDays cfg u =
     (case profileField workingDays u of Some w \<Rightarrow> w | None \<Rightarrow> defaultWorkingDays cfg)"

definition weekPunches :: "config \<Rightarrow> punch list \<Rightarrow> instant \<Rightarrow> user \<Rightarrow> int \<Rightarrow> punch list" where
  "weekPunches cfg store now u weekOffset =
     getPunchesInRange store (uid u)
       (startOfWeek (getTimezone cfg u) now weekOffset)
       (startOfWeek (getTimezone cfg u) now weekOffset + 7 * 86400000 - 1)
       (getTimezone cfg u)"

definition workedOnDay :: "config \<Rightarrow> punch list \<Rightarrow> instant \<Rightarrow> user \<Rightarrow> int \<Rightarrow> nat \<Rightarrow> real" where
  "workedOnDay cfg store now u weekOffset i =
     loopWorked (getTimezone cfg u) now (startOfWeek (getTimezone cfg u) now weekOffset)
       (weekPunches cfg store now u weekOffset) i"

definition isWorkingWeekDay :: "config \<Rightarrow> instant \<Rightarrow> user \<Rightarrow> int \<Rightarrow> nat \<Rightarrow> bool" where
  "isWorkingWeekDay cfg now u weekOffset i =
     loopWorking (getTimezone cfg u) (startOfWeek (getTimezone cfg u) now weekOffset)
       (userWorkingDays cfg u) i"

section \<open>Vocabulary of the statements\<close>


text \<open>
  Vocabulary: the window that \<open>validateBusinessHours\<close> checks against, which is the one
  passed, else the configured default, else 06:00 to 23:59; and a time of day in minutes.
\<close>

definition effectiveBusinessHours :: "config \<Rightarrow> businessHours option \<Rightarrow> businessHours" where
  "effectiveBusinessHours cfg businessHoursArg =
     (case businessHoursArg of
        Some b \<Rightarrow> b
      | None \<Rightarrow> (case defaultBusinessHours cfg of
                   Some b \<Rightarrow> b
                 | None \<Rightarrow> fallbackBusinessHours))"

definition minutesOf :: "hhmm \<Rightarrow> int" where
  "minutesOf hm = fst hm * 60 + snd hm"

text \<open>Vocabulary: a line of the log that reports a closed punch.\<close>

definition isAutoClosedEntry :: "logEntry \<Rightarrow> bool" where
  "isAutoClosedEntry e = (case e of InfoAutoClosed n \<Rightarrow> True | _ \<Rightarrow> False)"

section \<open>Example data\<close>

text \<open>
  The configuration of \<open>config/index.js\<close> with its defaults (the zone Asia/Kolkata is
  UTC+05:30), and a user whose profile sets the zone UTC and the five working days.
\<close>

definition exampleConfig :: config where
  "exampleConfig =
     \<lparr>defaultTimezone = 330, defaultWorkHours = 8,
      defaultWorkingDays = [''Monday'', ''Tuesday'', ''Wednesday'', ''Thursday'', ''Friday''],
      defaultBusinessHours = Some \<lparr>bhStart = (6, 0), bhEnd = (23, 59)\<rparr>\<rparr>"

definition exampleProfile :: profile where
  "exampleProfile =
     \<lparr>timezone = Some 0, dailyWorkTarget = Some 480,
      workingDays = Some [''Monday'', ''Tuesday'', ''Wednesday'', ''Thursday'', ''Friday''],
      profBusinessHours = None, graceMinutes = None, shiftStartTime = None,
      minimumWorkHours = None\<rparr>"

definition exampleUser :: user where
  "exampleUser =
     \<lparr>uid = 7, userName = ''Asha'', email = ''asha@example.com'', role = RoleUser,
      userProfile = Some exampleProfile\<rparr>"


text \<open>Further users with the profile of the example user.\<close>

definition otherUser :: "nat \<Rightarrow> user" where
  "otherUser n = exampleUser\<lparr>uid := n, userName := ''Bilal'', email := ''bilal@example.com''\<rparr>"

text \<open>
  A week of the example user: Monday 1 January 2024, 09:00 to 17:00, and Saturday
  6 January, 09:00 to 12:00. And a user who has emptied the working days.
\<close>

definition exampleWeek :: "punch list" where
  "exampleWeek =
     [newPunch 1 7 IN 1704099600000 Manual None, newPunch 2 7 OUT 1704128400000 Manual None,
      newPunch 3 7 IN 1704531600000 Manual None, newPunch 4 7 OUT 1704542400000 Manual None]"

definition noWorkingDaysUser :: user where
  "noWorkingDaysUser =
     exampleUser\<lparr>userProfile := Some (exampleProfile\<lparr>workingDays := Some []\<rparr>)\<rparr>"

section \<open>Theorems\<close>

lemma workedLoop_refines_scan:
  "(case workedLoop ps tot li of
      (t, l) \<Rightarrow> \<lparr>pendingIn = map_option punchTime l, total = t\<rparr>)
   = foldl specStep \<lparr>pendingIn = map_option punchTime li, total = tot\<rparr> (map eventOf ps)"
proof (induction ps arbitrary: tot li)
  case Nil
  show ?case by simp
next
  case (Cons p ps)
  show ?case
  proof (cases "punchType p")
    case IN
    then show ?thesis
      using Cons.IH [of tot "Some p"] by (simp add: specStep_def eventOf_def)
  next
    case OUT
    show ?thesis
    proof (cases li)
      case None
      then show ?thesis
        using OUT Cons.IH [of tot None] by (simp add: specStep_def eventOf_def)
    next
      case (Some l)
      then show ?thesis
        using OUT Cons.IH [of tot None]
          Cons.IH [of "tot + diffMinutes (punchTime p) (punchTime l)" None]
        by (simp add: specStep_def eventOf_def diffMinutes_def Let_def)
    qed
  qed
qed

subsection \<open>C1: worked minutes\<close>

text \<open>
  C1 (as the code has it). For every punch sequence, moment \<open>now\<close> and flag,
  \<open>calculateWorkedTime\<close> returns what the reference scan of section 4.3 returns: a later
  IN overwrites the pending IN, an OUT with no pending IN adds nothing, a matched pair
  longer than 1440 minutes is dropped and any other pair is accumulated, an open session
  adds its elapsed minutes when they are at most 960 and 480 otherwise, and the result is
  floored at 0. For the punches IN 09:00, OUT 12:00, IN 13:00, OUT 17:00 (1 January 2024,
  UTC) without the open session the result is 420 minutes (3 h + 4 h).
\<close>

theorem calculateWorkedTime_follows_reference:
  "calculateWorkedTime now ps inc = calculateWorkedMinutes_spec now (map eventOf ps) inc
   \<and> calculateWorkedTime now
         [newPunch 1 7 IN 1704099600000 Manual None, newPunch 2 7 OUT 1704110400000 Manual None,
          newPunch 3 7 IN 1704114000000 Manual None, newPunch 4 7 OUT 1704128400000 Manual None]
         False = 420"
proof
  have scan: "(case workedLoop ps 0 None of
      (t, l) \<Rightarrow> \<lparr>pendingIn = map_option punchTime l, total = t\<rparr>)
   = foldl specStep \<lparr>pendingIn = None, total = 0\<rparr> (map eventOf ps)"
    using workedLoop_refines_scan [of ps 0 None] by simp
  obtain t l where tl: "workedLoop ps 0 None = (t, l)"
    by (cases "workedLoop ps 0 None")
  with scan have s: "foldl specStep \<lparr>pendingIn = None, total = 0\<rparr> (map eventOf ps)
      = \<lparr>pendingIn = map_option punchTime l, total = t\<rparr>"
    by simp
  show "calculateWorkedTime now ps inc = calculateWorkedMinutes_spec now (map eventOf ps) inc"
    by (cases l)
      (simp_all add: calculateWorkedTime_def calculateWorkedMinutes_spec_def tl s
        specOpenSession_def diffMinutes_def Let_def)
next
  show "calculateWorkedTime now
         [newPunch 1 7 IN 1704099600000 Manual None, newPunch 2 7 OUT 1704110400000 Manual None,
          newPunch 3 7 IN 1704114000000 Manual None, newPunch 4 7 OUT 1704128400000 Manual None]
         False = 420"
    by (simp add: calculateWorkedTime_def newPunch_def diffMinutes_def)
qed

text \<open>
  C1 as stated gives 480 for the example; the two sessions last 180 and 240 minutes.
\<close>

theorem calculateWorkedTime_example_counterexample:
  "calculateWorkedTime 1704130000000
         [newPunch 1 7 IN 1704099600000 Manual None, newPunch 2 7 OUT 1704110400000 Manual None,
          newPunch 3 7 IN 1704114000000 Manual None, newPunch 4 7 OUT 1704128400000 Manual None]
         False \<noteq> 480"
  by (simp add: calculateWorkedTime_def newPunch_def diffMinutes_def)

subsection \<open>C2: the next punch type\<close>

text \<open>
  C2. \<open>getNextPunchType\<close> answers from the user's most recent punch of any day. A user
  whose only punch is an IN of the day before has no punch today, yet the next type is
  OUT, not IN; the sequence check, which looks at today only, then refuses that OUT as
  the first punch of the day.
\<close>

theorem getNextPunchType_previous_day_open:
  "getTodayPunches [newPunch 1 7 IN 1704099600000 Manual None] 7 0 1704186000000 = []
   \<and> getNextPunchType [newPunch 1 7 IN 1704099600000 Manual None] 7 = OUT
   \<and> validatePunchSequence [newPunch 1 7 IN 1704099600000 Manual None] 7 OUT 0 1704186000000
       = SequenceError ''First punch of the day must be IN''"
  by code_simp

subsection \<open>C3: double punches\<close>














subsection \<open>C7: business hours\<close>

lemma clock_minutes:
  "hourOf tz t * 60 + minuteOf tz t = (localMillis tz t mod 86400000) div 60000"
proof -
  define L where "L = localMillis tz t"
  define M where "M = L div 60000"
  have h: "L div 3600000 = M div 60"
    unfolding M_def using zdiv_zmult2_eq [of 60 L 60000] by simp
  have "L mod 86400000 = 60000 * (M mod 1440) + L mod 60000"
    unfolding M_def using zmod_zmult2_eq [of 1440 L 60000] by simp
  then have "(L mod 86400000) div 60000 = M mod 1440"
    by simp
  moreover have "M mod 1440 = 60 * ((M div 60) mod 24) + M mod 60"
    using zmod_zmult2_eq [of 24 M 60] by simp
  ultimately show ?thesis
    unfolding hourOf_def minuteOf_def L_def [symmetric] h M_def [symmetric] by simp
qed

text \<open>
  C7 (as the code has it). Whatever window applies (the one passed, the configured
  default or 06:00 to 23:59), the business-hours check flags a punch \<open>requiresApproval\<close>
  (and not valid) exactly when its local time of day, in whole minutes, is before the
  start or after the end of the window: the window is closed at both ends,
  \<open>[start, end]\<close> by the minute. A punch whose local hour and minute equal the end
  time gets a warning exactly when the end lies before the start (then every punch gets
  one); with a start that is not after the end it is inside the window and gets none.
\<close>

theorem validateBusinessHours_closed_window:
  "requiresApproval (validateBusinessHours cfg t tz arg)
     = (hourOf tz t * 60 + minuteOf tz t < minutesOf (bhStart (effectiveBusinessHours cfg arg))
        \<or> minutesOf (bhEnd (effectiveBusinessHours cfg arg)) < hourOf tz t * 60 + minuteOf tz t)
   \<and> bhValid (validateBusinessHours cfg t tz arg)
     = (minutesOf (bhStart (effectiveBusinessHours cfg arg)) \<le> hourOf tz t * 60 + minuteOf tz t
        \<and> hourOf tz t * 60 + minuteOf tz t \<le> minutesOf (bhEnd (effectiveBusinessHours cfg arg)))
   \<and> hourOf tz t * 60 + minuteOf tz t = (localMillis tz t mod 86400000) div 60000
   \<and> (hourOf tz t = fst (bhEnd (effectiveBusinessHours cfg arg))
        \<and> minuteOf tz t = snd (bhEnd (effectiveBusinessHours cfg arg))
      \<longrightarrow> requiresApproval (validateBusinessHours cfg t tz arg)
          = (minutesOf (bhEnd (effectiveBusinessHours cfg arg))
               < minutesOf (bhStart (effectiveBusinessHours cfg arg)))
        \<and> bhValid (validateBusinessHours cfg t tz arg)
          = (minutesOf (bhStart (effectiveBusinessHours cfg arg))
               \<le> minutesOf (bhEnd (effectiveBusinessHours cfg arg))))"
  using clock_minutes [of tz t]
  by (cases arg; cases "defaultBusinessHours cfg")
    (auto simp: validateBusinessHours_def effectiveBusinessHours_def minutesOf_def Let_def)

text \<open>
  In the zone UTC: with the window 09:00 to 18:00 a punch at 18:00 passes and one at
  18:01 is flagged; with the default window a punch at 23:59 passes; with the window
  22:00 to 06:00 a punch at 06:00 is flagged.
\<close>

theorem validateBusinessHours_closed_window_witness:
  "hourOf 0 1704132000000 = 18 \<and> minuteOf 0 1704132000000 = 0
   \<and> bhValid (validateBusinessHours exampleConfig 1704132000000 0
                (Some \<lparr>bhStart = (9, 0), bhEnd = (18, 0)\<rparr>))
   \<and> \<not> requiresApproval (validateBusinessHours exampleConfig 1704132000000 0
                (Some \<lparr>bhStart = (9, 0), bhEnd = (18, 0)\<rparr>))
   \<and> requiresApproval (validateBusinessHours exampleConfig 1704132060000 0
                (Some \<lparr>bhStart = (9, 0), bhEnd = (18, 0)\<rparr>))
   \<and> hourOf 0 1704153540000 = 23 \<and> minuteOf 0 1704153540000 = 59
   \<and> \<not> requiresApproval (validateBusinessHours exampleConfig 1704153540000 0 None)
   \<and> hourOf 0 1704088800000 = 6 \<and> minuteOf 0 1704088800000 = 0
   \<and> requiresApproval (validateBusinessHours exampleConfig 1704088800000 0
                (Some \<lparr>bhStart = (22, 0), bhEnd = (6, 0)\<rparr>))"
proof -
  have hm: "hourOf 0 1704132000000 = 18 \<and> minuteOf 0 1704132000000 = 0"
    "hourOf 0 1704153540000 = 23 \<and> minuteOf 0 1704153540000 = 59"
    "hourOf 0 1704088800000 = 6 \<and> minuteOf 0 1704088800000 = 0"
    by code_simp+
  have w: "effectiveBusinessHours exampleConfig (Some \<lparr>bhStart = (9, 0), bhEnd = (18, 0)\<rparr>)
        = \<lparr>bhStart = (9, 0), bhEnd = (18, 0)\<rparr>"
    "effectiveBusinessHours exampleConfig None = \<lparr>bhStart = (6, 0), bhEnd = (23, 59)\<rparr>"
    "effectiveBusinessHours exampleConfig (Some \<lparr>bhStart = (22, 0), bhEnd = (6, 0)\<rparr>)
        = \<lparr>bhStart = (22, 0), bhEnd = (6, 0)\<rparr>"
    by (simp_all add: effectiveBusinessHours_def exampleConfig_def)
  have late: "requiresApproval (validateBusinessHours exampleConfig 1704132060000 0
                (Some \<lparr>bhStart = (9, 0), bhEnd = (18, 0)\<rparr>))"
    by code_simp
  from validateBusinessHours_closed_window
      [of exampleConfig 1704132000000 0 "Some \<lparr>bhStart = (9, 0), bhEnd = (18, 0)\<rparr>"] hm(1)
  have a: "bhValid (validateBusinessHours exampleConfig 1704132000000 0
                (Some \<lparr>bhStart = (9, 0), bhEnd = (18, 0)\<rparr>))
      \<and> \<not> requiresApproval (validateBusinessHours exampleConfig 1704132000000 0
                (Some \<lparr>bhStart = (9, 0), bhEnd = (18, 0)\<rparr>))"
    by (simp add: w minutesOf_def)
  from validateBusinessHours_closed_window [of exampleConfig 1704153540000 0 None] hm(2)
  have b: "\<not> requiresApproval (validateBusinessHours exampleConfig 1704153540000 0 None)"
    by (simp add: w minutesOf_def)
  from validateBusinessHours_closed_window
      [of exampleConfig 1704088800000 0 "Some \<lparr>bhStart = (22, 0), bhEnd = (6, 0)\<rparr>"] hm(3)
  have c: "requiresApproval (validateBusinessHours exampleConfig 1704088800000 0
                (Some \<lparr>bhStart = (22, 0), bhEnd = (6, 0)\<rparr>))"
    by (simp add: w minutesOf_def)
  from hm late a b c show ?thesis by blast
qed

text \<open>
  C7 as stated takes the window half-open, so that a punch at the end time warns; at
  18:00 with the end 18:00 there is no warning.
\<close>

theorem validateBusinessHours_end_counterexample:
  "hourOf 0 1704132000000 * 60 + minuteOf 0 1704132000000 = 18 * 60 + 0
   \<and> \<not> requiresApproval (validateBusinessHours exampleConfig 1704132000000 0
                (Some \<lparr>bhStart = (9, 0), bhEnd = (18, 0)\<rparr>))"
  by code_simp

subsection \<open>C8: short sessions\<close>

lemma shortSessionLoop_mem:
  "x \<in> set (shortSessionLoop ps i acc) \<longleftrightarrow>
     x \<in> set acc \<or> (\<exists>k. isShortPair ps (i + 2 * k) \<and> x = shortSessionAt ps (i + 2 * k))"
proof (induction ps i acc rule: shortSessionLoop.induct)
  case (1 ps i acc)
  have shift: "\<And>P. (\<exists>k. P (i + 2 * k)) \<longleftrightarrow> P i \<or> (\<exists>k. P (i + 2 + 2 * k))"
  proof -
    fix P :: "nat \<Rightarrow> bool"
    show "(\<exists>k. P (i + 2 * k)) \<longleftrightarrow> P i \<or> (\<exists>k. P (i + 2 + 2 * k))"
    proof
      assume "\<exists>k. P (i + 2 * k)"
      then obtain k where k: "P (i + 2 * k)" ..
      show "P i \<or> (\<exists>k. P (i + 2 + 2 * k))"
      proof (cases k)
        case 0
        with k show ?thesis by simp
      next
        case (Suc m)
        with k have "P (i + 2 + 2 * m)" by (simp add: add.commute add.left_commute)
        then show ?thesis by blast
      qed
    next
      assume "P i \<or> (\<exists>k. P (i + 2 + 2 * k))"
      then show "\<exists>k. P (i + 2 * k)"
      proof
        assume "P i"
        then have "P (i + 2 * 0)" by simp
        then show ?thesis by blast
      next
        assume "\<exists>k. P (i + 2 + 2 * k)"
        then obtain k where "P (i + 2 + 2 * k)" ..
        then have "P (i + 2 * Suc k)" by (simp add: add.commute add.left_commute)
        then show ?thesis by blast
      qed
    qed
  qed
  show ?case
  proof (cases "int i < int (length ps) - 1")
    case False
    then have "\<And>k. \<not> isShortPair ps (i + 2 * k)"
      by (simp add: isShortPair_def)
    with False show ?thesis
      by (subst shortSessionLoop.simps) simp
  next
    case inrange: True
    show ?thesis
    proof (cases "punchType (ps ! i) = IN \<and> punchType (ps ! (i + 1)) = OUT")
      case False
      then have no: "\<not> isShortPair ps i" by (auto simp: isShortPair_def)
      have "shortSessionLoop ps i acc = shortSessionLoop ps (i + 2) acc"
        using inrange False by (subst shortSessionLoop.simps) auto
      then show ?thesis
        using "1.IH"(3) [OF inrange False] no
          shift [of "\<lambda>j. isShortPair ps j \<and> x = shortSessionAt ps j"]
        by simp
    next
      case pair: True
      show ?thesis
      proof (cases "diffMinutesTrunc (punchTime (ps ! (i + 1))) (punchTime (ps ! i)) < 30")
        case True
        then have yes: "isShortPair ps i" using inrange pair by (simp add: isShortPair_def)
        have "shortSessionLoop ps i acc = shortSessionLoop ps (i + 2) (acc @ [shortSessionAt ps i])"
          using inrange pair True
          by (subst shortSessionLoop.simps) (auto simp: shortSessionAt_def Let_def)
        then show ?thesis
          using "1.IH"(1) [OF inrange pair refl True] yes
            shift [of "\<lambda>j. isShortPair ps j \<and> x = shortSessionAt ps j"]
          by (auto simp: shortSessionAt_def)
      next
        case False
        then have no: "\<not> isShortPair ps i" by (simp add: isShortPair_def)
        have "shortSessionLoop ps i acc = shortSessionLoop ps (i + 2) acc"
          using inrange pair False by (subst shortSessionLoop.simps) (auto simp: Let_def)
        then show ?thesis
          using "1.IH"(2) [OF inrange pair refl False] no
            shift [of "\<lambda>j. isShortPair ps j \<and> x = shortSessionAt ps j"]
          by simp
      qed
    qed
  qed
qed

lemma truncDiv_minutes_lt: "truncDiv x 60000 < 30 \<longleftrightarrow> x < 1800000"
proof (cases "x < 0")
  case True
  then have "truncDiv x 60000 = - ((- x) div 60000)" by (simp add: truncDiv_def)
  moreover have "0 \<le> (- x) div 60000" using True by simp
  ultimately show ?thesis using True by linarith
next
  case False
  then have "truncDiv x 60000 = x div 60000" by (simp add: truncDiv_def)
  moreover have "x div 60000 < 30 \<longleftrightarrow> x < 1800000" by linarith
  ultimately show ?thesis by linarith
qed

text \<open>
  C8 (as the code has it). The SHORT_SESSION issues of \<open>detectPunchIssues\<close> are exactly
  the issues of the short pairs that start at an even position \<open>2k\<close> (counting from 0)
  of today's punches in time order: an IN at \<open>2k\<close> followed by an OUT at \<open>2k + 1\<close>
  less than 30 minutes (1800000 ms) later. An adjacent IN and OUT that start at an odd
  position are not looked at.
\<close>

theorem detectPunchIssues_short_sessions:
  "((x \<in> set (detectPunchIssues store u tz now) \<and> issueType x = SHORT_SESSION)
      \<longleftrightarrow> (\<exists>k. isShortPair (getTodayPunches store u tz now) (2 * k)
               \<and> x = shortSessionAt (getTodayPunches store u tz now) (2 * k)))
   \<and> (isShortPair ps j
      \<longleftrightarrow> (j + 1 < length ps \<and> punchType (ps ! j) = IN \<and> punchType (ps ! (j + 1)) = OUT
           \<and> punchTime (ps ! (j + 1)) - punchTime (ps ! j) < 1800000))"
proof
  define today where "today = getTodayPunches store u tz now"
  have loop: "\<And>acc. x \<in> set (shortSessionLoop today 0 acc) \<longleftrightarrow>
     x \<in> set acc \<or> (\<exists>k. isShortPair today (2 * k) \<and> x = shortSessionAt today (2 * k))"
    using shortSessionLoop_mem [of x today 0] by simp
  have ty: "\<And>k. issueType (shortSessionAt today (2 * k)) = SHORT_SESSION"
    by (simp add: shortSessionAt_def)
  show "(x \<in> set (detectPunchIssues store u tz now) \<and> issueType x = SHORT_SESSION)
      \<longleftrightarrow> (\<exists>k. isShortPair (getTodayPunches store u tz now) (2 * k)
               \<and> x = shortSessionAt (getTodayPunches store u tz now) (2 * k))"
    unfolding detectPunchIssues_def today_def [symmetric] Let_def
    using ty by (auto simp: loop)
next
  show "isShortPair ps j
      \<longleftrightarrow> (j + 1 < length ps \<and> punchType (ps ! j) = IN \<and> punchType (ps ! (j + 1)) = OUT
           \<and> punchTime (ps ! (j + 1)) - punchTime (ps ! j) < 1800000)"
    by (simp add: isShortPair_def diffMinutesTrunc_def truncDiv_minutes_lt)
qed

text \<open>
  C8 as stated covers every adjacent pair. Today's punches OUT 06:00 (closing a night
  shift), IN 09:00, OUT 09:10: the IN and OUT at positions 1 and 2 are ten minutes
  apart, and no SHORT_SESSION issue is reported.
\<close>

theorem detectPunchIssues_odd_position_counterexample:
  "getTodayPunches
      [newPunch 1 7 OUT 1704175200000 Admin None, newPunch 2 7 IN 1704186000000 Manual None,
       newPunch 3 7 OUT 1704186600000 Manual None] 7 0 1704189600000
     = [newPunch 1 7 OUT 1704175200000 Admin None, newPunch 2 7 IN 1704186000000 Manual None,
        newPunch 3 7 OUT 1704186600000 Manual None]
   \<and> isShortPair
        [newPunch 1 7 OUT 1704175200000 Admin None, newPunch 2 7 IN 1704186000000 Manual None,
         newPunch 3 7 OUT 1704186600000 Manual None] 1
   \<and> SHORT_SESSION \<notin> issueType ` set (detectPunchIssues
        [newPunch 1 7 OUT 1704175200000 Admin None, newPunch 2 7 IN 1704186000000 Manual None,
         newPunch 3 7 OUT 1704186600000 Manual None] 7 0 1704189600000)"
  by code_simp

subsection \<open>C9: the original values of an edited punch\<close>

lemma findById_savePunch:
  "findById store i = Some p \<Longrightarrow> pid q = i \<Longrightarrow> findById (savePunch q store) i = Some q"
  by (induction store) (auto simp: findById_def)

lemma findById_pid: "findById store i = Some p \<Longrightarrow> pid p = i"
  by (induction store) (auto simp: findById_def split: if_splits)

lemma editPunch_originals:
  assumes "editPunch store audit now i ed who = Inr (p', store', audit')"
    and "findById store i = Some p"
  shows "findById store' i = Some p'
    \<and> originalPunchTime p' =
        Some (case originalPunchTime p of Some t \<Rightarrow> t | None \<Rightarrow> punchTime p)
    \<and> originalPunchType p' =
        Some (case originalPunchType p of Some ty \<Rightarrow> ty | None \<Rightarrow> punchType p)"
proof -
  have i: "pid p = i" using assms(2) by (rule findById_pid)
  from assms have p': "pid p' = i"
    by (auto simp: editPunch_def Let_def i split: if_splits option.splits)
  from assms have s: "store' = savePunch p' store"
    by (auto simp: editPunch_def Let_def split: if_splits option.splits)
  have "findById store' i = Some p'"
    unfolding s using assms(2) p' by (rule findById_savePunch)
  moreover from assms have "originalPunchTime p' =
        Some (case originalPunchTime p of Some t \<Rightarrow> t | None \<Rightarrow> punchTime p)"
    by (auto simp: editPunch_def Let_def split: if_splits option.splits)
  moreover from assms have "originalPunchType p' =
        Some (case originalPunchType p of Some ty \<Rightarrow> ty | None \<Rightarrow> punchType p)"
    by (auto simp: editPunch_def Let_def split: if_splits option.splits)
  ultimately show ?thesis by simp
qed

lemma editPunches_keeps_originals:
  "findById store i = Some p \<Longrightarrow> originalPunchTime p = Some t0 \<Longrightarrow>
   originalPunchType p = Some ty0 \<Longrightarrow>
   editPunches (store, audit) i edits = Inr (store', audit') \<Longrightarrow>
   \<exists>p'. findById store' i = Some p' \<and> originalPunchTime p' = Some t0
        \<and> originalPunchType p' = Some ty0"
proof (induction edits arbitrary: store audit p)
  case Nil
  then show ?case by simp
next
  case (Cons e edits)
  obtain now ed who where e: "e = (now, ed, who)" by (cases e)
  from Cons.prems(4) obtain p1 store1 audit1
    where step: "editPunch store audit now i ed who = Inr (p1, store1, audit1)"
      and rest: "editPunches (store1, audit1) i edits = Inr (store', audit')"
    by (auto simp: e split: sum.splits)
  from editPunch_originals [OF step Cons.prems(1)] Cons.prems(2,3)
  have "findById store1 i = Some p1" "originalPunchTime p1 = Some t0"
    "originalPunchType p1 = Some ty0"
    by simp_all
  then show ?case using rest by (rule Cons.IH)
qed

text \<open>
  C9. After one or more successive successful edits of a punch, its
  \<open>originalPunchTime\<close> and \<open>originalPunchType\<close> are the ones it had before these edits
  if it had any, and otherwise the time and type it had before the first of them: the
  first edit captures them and no later edit changes them.
\<close>

theorem editPunch_first_write_snapshot:
  assumes "findById store i = Some p"
    and "editPunches (store, audit) i (e # edits) = Inr (store', audit')"
  shows "\<exists>p'. findById store' i = Some p'
      \<and> originalPunchTime p' =
          Some (case originalPunchTime p of Some t \<Rightarrow> t | None \<Rightarrow> punchTime p)
      \<and> originalPunchType p' =
          Some (case originalPunchType p of Some ty \<Rightarrow> ty | None \<Rightarrow> punchType p)"
proof -
  obtain now ed who where e: "e = (now, ed, who)" by (cases e)
  from assms(2) obtain p1 store1 audit1
    where step: "editPunch store audit now i ed who = Inr (p1, store1, audit1)"
      and rest: "editPunches (store1, audit1) i edits = Inr (store', audit')"
    by (auto simp: e split: sum.splits)
  from editPunch_originals [OF step assms(1)]
  have "findById store1 i = Some p1"
    "originalPunchTime p1 =
       Some (case originalPunchTime p of Some t \<Rightarrow> t | None \<Rightarrow> punchTime p)"
    "originalPunchType p1 =
       Some (case originalPunchType p of Some ty \<Rightarrow> ty | None \<Rightarrow> punchType p)"
    by simp_all
  then show ?thesis using rest by (rule editPunches_keeps_originals)
qed

text \<open>
  A punch IN at 09:00, edited by its owner first to 08:55 and then to an OUT at 08:50:
  the originals are still 09:00 and IN.
\<close>

theorem editPunch_first_write_snapshot_witness:
  "\<exists>store' audit' p'.
     editPunches ([newPunch 1 7 IN 1704099600000 Manual None], []) 1
       [(1704103200000, \<lparr>edPunchTime = Some 1704099300000, edPunchType = None,
                          edEditReason = Some ''Arrived earlier''\<rparr>, exampleUser),
        (1704106800000, \<lparr>edPunchTime = Some 1704099000000, edPunchType = Some OUT,
                          edEditReason = Some ''Second correction''\<rparr>, exampleUser)]
       = Inr (store', audit')
     \<and> findById store' 1 = Some p'
     \<and> punchTime p' = 1704099000000 \<and> punchType p' = OUT
     \<and> originalPunchTime p' = Some 1704099600000 \<and> originalPunchType p' = Some IN"
proof -
  let ?p = "newPunch 1 7 IN 1704099600000 Manual None"
  let ?edits = "[(1704106800000, \<lparr>edPunchTime = Some 1704099000000, edPunchType = Some OUT,
                          edEditReason = Some ''Second correction''\<rparr>, exampleUser)]"
  let ?e = "(1704103200000, \<lparr>edPunchTime = Some 1704099300000, edPunchType = None,
                          edEditReason = Some ''Arrived earlier''\<rparr>, exampleUser)"
  have f: "findById [?p] 1 = Some ?p" by code_simp
  have "case editPunches ([?p], []) 1 (?e # ?edits) of
          Inl err \<Rightarrow> False
        | Inr (s, a) \<Rightarrow>
            map (\<lambda>q. (punchTime q, punchType q)) s = [(1704099000000, OUT)]"
    by code_simp
  then obtain s a where r: "editPunches ([?p], []) 1 (?e # ?edits) = Inr (s, a)"
    and now: "map (\<lambda>q. (punchTime q, punchType q)) s = [(1704099000000, OUT)]"
    by (auto split: sum.splits)
  from editPunch_first_write_snapshot [OF f r]
  obtain p' where p': "findById s 1 = Some p'"
    "originalPunchTime p' = Some 1704099600000" "originalPunchType p' = Some IN"
    by (auto simp: newPunch_def)
  from now obtain q where s: "s = [q]" by (cases s) auto
  with p' have "p' = q" by (auto simp: findById_def split: if_splits)
  with now s have "punchTime p' = 1704099000000" "punchType p' = OUT" by simp_all
  with r p' show ?thesis by blast
qed

subsection \<open>C5: marking orphaned punches\<close>

lemma update_pids: "map pid (findByIdAndUpdateNotes i txt store) = map pid store"
  by (induction store) auto

lemma update_nth:
  "k < length store \<Longrightarrow>
   findByIdAndUpdateNotes i txt store ! k = store ! k
   \<or> (pid (store ! k) = i
      \<and> findByIdAndUpdateNotes i txt store ! k = (store ! k)\<lparr>punchNotes := Some txt\<rparr>)"
proof (induction store arbitrary: k)
  case Nil
  then show ?case by simp
next
  case (Cons p ps)
  then show ?case by (cases k) auto
qed

lemma update_find_same:
  "findById store i = Some p \<Longrightarrow>
   findById (findByIdAndUpdateNotes i txt store) i = Some (p\<lparr>punchNotes := Some txt\<rparr>)"
  by (induction store) (auto simp: findById_def)

lemma update_find_other:
  "j \<noteq> i \<Longrightarrow> findById (findByIdAndUpdateNotes i txt store) j = findById store j"
  by (induction store) (auto simp: findById_def)

lemma markOrphans_snoc:
  "markOrphans (os @ [orph]) store =
     findByIdAndUpdateNotes (orPunchId orph) (orphanNote orph) (markOrphans os store)"
  by (induction os arbitrary: store) auto

lemma markOrphans_pids: "map pid (markOrphans os store) = map pid store"
  by (induction os arbitrary: store) (auto simp: update_pids)

lemma markOrphans_length: "length (markOrphans os store) = length store"
  using markOrphans_pids [of os store] by (metis length_map)

lemma markOrphans_nth:
  "k < length store \<Longrightarrow>
   markOrphans os store ! k = store ! k
   \<or> (\<exists>orph \<in> set os. orPunchId orph = pid (store ! k)
        \<and> markOrphans os store ! k = (store ! k)\<lparr>punchNotes := Some (orphanNote orph)\<rparr>)"
proof (induction os rule: rev_induct)
  case Nil
  then show ?case by simp
next
  case (snoc orph os)
  let ?prev = "markOrphans os store"
  have k: "k < length ?prev" using snoc.prems by (simp add: markOrphans_length)
  have pidk: "pid (?prev ! k) = pid (store ! k)"
    using markOrphans_pids [of os store] snoc.prems k by (metis nth_map)
  from update_nth [OF k, of "orPunchId orph" "orphanNote orph"]
  show ?case
  proof
    assume same: "findByIdAndUpdateNotes (orPunchId orph) (orphanNote orph) ?prev ! k = ?prev ! k"
    from snoc.IH [OF snoc.prems] show ?thesis
      using same by (auto simp: markOrphans_snoc)
  next
    assume upd: "pid (?prev ! k) = orPunchId orph
      \<and> findByIdAndUpdateNotes (orPunchId orph) (orphanNote orph) ?prev ! k
          = (?prev ! k)\<lparr>punchNotes := Some (orphanNote orph)\<rparr>"
    have "(?prev ! k)\<lparr>punchNotes := Some (orphanNote orph)\<rparr>
          = (store ! k)\<lparr>punchNotes := Some (orphanNote orph)\<rparr>"
      using snoc.IH [OF snoc.prems] by auto
    with upd pidk show ?thesis
      by (auto simp: markOrphans_snoc)
  qed
qed

lemma markOrphans_find_untouched:
  "\<forall>y \<in> set os. orPunchId y \<noteq> i \<Longrightarrow>
   findById (markOrphans os store) i = findById store i"
  by (induction os rule: rev_induct) (auto simp: markOrphans_snoc update_find_other)

lemma markOrphans_find:
  "\<exists>orph \<in> set os. orPunchId orph = i \<Longrightarrow> findById store i = Some p \<Longrightarrow>
   \<exists>o2 \<in> set os. orPunchId o2 = i
      \<and> findById (markOrphans os store) i = Some (p\<lparr>punchNotes := Some (orphanNote o2)\<rparr>)"
proof (induction os rule: rev_induct)
  case Nil
  then show ?case by simp
next
  case (snoc x os)
  show ?case
  proof (cases "orPunchId x = i")
    case True
    have "\<exists>q. findById (markOrphans os store) i = Some q
          \<and> q\<lparr>punchNotes := Some (orphanNote x)\<rparr> = p\<lparr>punchNotes := Some (orphanNote x)\<rparr>"
    proof (cases "\<exists>orph \<in> set os. orPunchId orph = i")
      case True
      from snoc.IH [OF True snoc.prems(2)] show ?thesis by auto
    next
      case False
      then have "findById (markOrphans os store) i = findById store i"
        by (intro markOrphans_find_untouched) auto
      with snoc.prems(2) show ?thesis by simp
    qed
    then obtain q where q: "findById (markOrphans os store) i = Some q"
      "q\<lparr>punchNotes := Some (orphanNote x)\<rparr> = p\<lparr>punchNotes := Some (orphanNote x)\<rparr>"
      by blast
    from update_find_same [OF q(1), of "orphanNote x"] q(2) True
    show ?thesis by (auto simp: markOrphans_snoc)
  next
    case False
    with snoc.prems(1) have "\<exists>orph \<in> set os. orPunchId orph = i" by auto
    from snoc.IH [OF this snoc.prems(2)] False show ?thesis
      by (auto simp: markOrphans_snoc update_find_other)
  qed
qed

lemma findById_mem: "p \<in> set store \<Longrightarrow> \<exists>q. findById store (pid p) = Some q"
  by (induction store) (auto simp: findById_def)

lemma orphanScan_ids:
  "set ps \<subseteq> set store \<Longrightarrow> \<forall>orph \<in> set acc. orPunchId orph \<in> pid ` set store \<Longrightarrow>
   \<forall>orph \<in> set (orphanScan u ps e acc). orPunchId orph \<in> pid ` set store"
proof (induction ps arbitrary: e acc)
  case Nil
  then show ?case by simp
next
  case (Cons p ps)
  have p: "pid p \<in> pid ` set store" using Cons.prems(1) by auto
  have ps: "set ps \<subseteq> set store" using Cons.prems(1) by auto
  show ?case
    unfolding orphanScan.simps
    by (rule Cons.IH [OF ps]) (use Cons.prems(2) p in simp)
qed

lemma findInRange_subset: "set (findInRange store u a b) \<subseteq> set store"
  by (auto simp: findInRange_def)

lemma orphanUsers_ids:
  "\<forall>orph \<in> set acc. orPunchId orph \<in> pid ` set store \<Longrightarrow>
   \<forall>orph \<in> set (orphanUsers cfg store now us acc). orPunchId orph \<in> pid ` set store"
proof (induction us arbitrary: acc)
  case Nil
  then show ?case by simp
next
  case (Cons u us)
  show ?case
    unfolding orphanUsers.simps Let_def
    by (rule Cons.IH, rule orphanScan_ids [OF findInRange_subset Cons.prems])
qed

text \<open>
  C5 (as the code has it). When the orphan scan runs with \<open>dryRun = false\<close>, no punch is
  removed or reordered; a punch of the log is either left as it is or is a flagged punch
  whose \<open>notes\<close> field alone has been replaced by the system annotation of an orphan
  entry with its identifier; and every flagged punch ends with such an annotation as its
  notes. What the notes held before is not kept.
\<close>

theorem cleanupOrphanedPunches_overwrites_notes:
  assumes "cleanupOrphanedPunches cfg users store now False = (res, store')"
  shows "map pid store' = map pid store
    \<and> (\<forall>k < length store.
          store' ! k = store ! k
          \<or> (\<exists>orph \<in> set (orphanedPunches res).
                orPunchId orph = pid (store ! k)
                \<and> store' ! k = (store ! k)\<lparr>punchNotes := Some (orphanNote orph)\<rparr>))
    \<and> (\<forall>orph \<in> set (orphanedPunches res).
          \<exists>p o2. findById store (orPunchId orph) = Some p
            \<and> o2 \<in> set (orphanedPunches res) \<and> orPunchId o2 = orPunchId orph
            \<and> findById store' (orPunchId orph) = Some (p\<lparr>punchNotes := Some (orphanNote o2)\<rparr>))"
proof -
  define orphans where "orphans = orphanUsers cfg store now users []"
  have res: "orphanedPunches res = orphans"
    using assms by (auto simp: cleanupOrphanedPunches_def Let_def orphans_def)
  have store': "store' = markOrphans orphans store"
    using assms by (cases orphans) (auto simp: cleanupOrphanedPunches_def Let_def orphans_def)
  have ids: "\<forall>orph \<in> set orphans. orPunchId orph \<in> pid ` set store"
    unfolding orphans_def by (rule orphanUsers_ids) simp
  have a: "map pid store' = map pid store"
    unfolding store' by (rule markOrphans_pids)
  have b: "\<forall>k < length store.
          store' ! k = store ! k
          \<or> (\<exists>orph \<in> set orphans.
                orPunchId orph = pid (store ! k)
                \<and> store' ! k = (store ! k)\<lparr>punchNotes := Some (orphanNote orph)\<rparr>)"
    unfolding store' using markOrphans_nth by blast
  have c: "\<forall>orph \<in> set orphans.
          \<exists>p o2. findById store (orPunchId orph) = Some p
            \<and> o2 \<in> set orphans \<and> orPunchId o2 = orPunchId orph
            \<and> findById store' (orPunchId orph) = Some (p\<lparr>punchNotes := Some (orphanNote o2)\<rparr>)"
  proof
    fix orph assume o: "orph \<in> set orphans"
    with ids obtain q where "q \<in> set store" "orPunchId orph = pid q" by auto
    with findById_mem [of q store] obtain p where p: "findById store (orPunchId orph) = Some p"
      by auto
    from o have "\<exists>x \<in> set orphans. orPunchId x = orPunchId orph" by blast
    from markOrphans_find [OF this p] p
    show "\<exists>p o2. findById store (orPunchId orph) = Some p
            \<and> o2 \<in> set orphans \<and> orPunchId o2 = orPunchId orph
            \<and> findById store' (orPunchId orph) = Some (p\<lparr>punchNotes := Some (orphanNote o2)\<rparr>)"
      unfolding store' by blast
  qed
  show ?thesis using a b c unfolding res by blast
qed

text \<open>
  IN 09:00, OUT 12:00 with the note "Lunch", OUT 17:00 with a note of the user: the
  second OUT is flagged and its note is replaced; the other two punches are untouched.
\<close>

theorem cleanupOrphanedPunches_overwrites_notes_witness:
  "cleanupOrphanedPunches exampleConfig [exampleUser]
     [newPunch 1 7 IN 1704099600000 Manual None,
      newPunch 2 7 OUT 1704110400000 Manual (Some ''Lunch''),
      newPunch 3 7 OUT 1704128400000 Manual (Some ''Left early for an appointment'')]
     1704186000000 False
   = (\<lparr>crSuccess = True,
        orphanedPunches =
          [\<lparr>orPunchId = 3, orUserId = 7, orUserName = ''Asha'', orPunchType = OUT,
            orPunchTime = 1704128400000, orReason = ''Expected IN but got OUT''\<rparr>],
        crDryRun = False\<rparr>,
      [newPunch 1 7 IN 1704099600000 Manual None,
       newPunch 2 7 OUT 1704110400000 Manual (Some ''Lunch''),
       newPunch 3 7 OUT 1704128400000 Manual
         (Some ''[SYSTEM] Orphaned OUT punch - Expected IN but got OUT'')])
   \<and> map pid
        [newPunch 1 7 IN 1704099600000 Manual None,
         newPunch 2 7 OUT 1704110400000 Manual (Some ''Lunch''),
         newPunch 3 7 OUT 1704128400000 Manual
           (Some ''[SYSTEM] Orphaned OUT punch - Expected IN but got OUT'')]
      = map pid
        [newPunch 1 7 IN 1704099600000 Manual None,
         newPunch 2 7 OUT 1704110400000 Manual (Some ''Lunch''),
         newPunch 3 7 OUT 1704128400000 Manual (Some ''Left early for an appointment'')]"
proof -
  have run: "cleanupOrphanedPunches exampleConfig [exampleUser]
     [newPunch 1 7 IN 1704099600000 Manual None,
      newPunch 2 7 OUT 1704110400000 Manual (Some ''Lunch''),
      newPunch 3 7 OUT 1704128400000 Manual (Some ''Left early for an appointment'')]
     1704186000000 False
   = (\<lparr>crSuccess = True,
        orphanedPunches =
          [\<lparr>orPunchId = 3, orUserId = 7, orUserName = ''Asha'', orPunchType = OUT,
            orPunchTime = 1704128400000, orReason = ''Expected IN but got OUT''\<rparr>],
        crDryRun = False\<rparr>,
      [newPunch 1 7 IN 1704099600000 Manual None,
       newPunch 2 7 OUT 1704110400000 Manual (Some ''Lunch''),
       newPunch 3 7 OUT 1704128400000 Manual
         (Some ''[SYSTEM] Orphaned OUT punch - Expected IN but got OUT'')])"
    by code_simp
  from cleanupOrphanedPunches_overwrites_notes [OF run] run show ?thesis by blast
qed

text \<open>
  C5 as stated keeps the existing notes of a flagged punch; the note of a lone OUT is
  gone after the run.
\<close>

theorem cleanupOrphanedPunches_notes_counterexample:
  "map punchNotes (snd (cleanupOrphanedPunches exampleConfig [exampleUser]
      [newPunch 1 7 OUT 1704128400000 Manual (Some ''Left early for an appointment'')]
      1704186000000 False))
     = [Some ''[SYSTEM] Orphaned OUT punch - Expected IN but got OUT'']
   \<and> \<not> sublist ''Left early for an appointment''
          ''[SYSTEM] Orphaned OUT punch - Expected IN but got OUT''"
  by code_simp

subsection \<open>C4: failures in the auto-close job\<close>

lemma autoCloseUsers_append:
  "autoCloseUsers f cfg now (us1 @ us2) st =
     (case autoCloseUsers f cfg now us1 st of
        (Some e, st') \<Rightarrow> (Some e, st')
      | (None, st') \<Rightarrow> autoCloseUsers f cfg now us2 st')"
proof (induction us1 arbitrary: st)
  case Nil
  show ?case by simp
next
  case (Cons u us1)
  show ?case by (simp add: Let_def Cons.IH)
qed

lemma autoCloseUsers_no_faults:
  "\<forall>u \<in> set us. \<not> findFails f (uid u) \<and> \<not> createFails f (uid u) \<Longrightarrow>
   fst (autoCloseUsers f cfg now us st) = None"
proof (induction us arbitrary: st)
  case Nil
  show ?case by simp
next
  case (Cons u us)
  then show ?case by (simp add: Let_def)
qed

lemma autoCloseUsers_queue:
  "length (notifications st) = closedCount st \<Longrightarrow>
   length (notifications (snd (autoCloseUsers f cfg now us st)))
     = closedCount (snd (autoCloseUsers f cfg now us st))"
proof (induction us arbitrary: st)
  case Nil
  then show ?case by simp
next
  case (Cons u us)
  then show ?case by (simp add: Let_def)
qed

lemma autoCloseUsers_email:
  "autoCloseUsers (f\<lparr>emailFails := g\<rparr>) cfg now us st = autoCloseUsers f cfg now us st"
proof (induction us arbitrary: st)
  case Nil
  show ?case by simp
next
  case (Cons u us)
  show ?case by (simp add: Let_def Cons.IH)
qed

lemma autoCloseUsers_failing_user:
  "userFails f cfg now (jsStore st) u \<Longrightarrow>
   autoCloseUsers f cfg now (u # us) st = (Some (DatabaseError (uid u)), st)"
  by (auto simp: userFails_def hasOpenPunchToday_def Let_def)

lemma autoCloseUsers_log:
  "(\<forall>e \<in> set (jsLog st). e = InfoStarting \<or> isAutoClosedEntry e) \<Longrightarrow>
   closedCount st = length (filter isAutoClosedEntry (jsLog st)) \<Longrightarrow>
   (\<forall>n. InfoAutoClosed n \<in> set (jsLog st)
          \<longleftrightarrow> n \<in> (\<lambda>x. uid (noUser x)) ` set (notifications st)) \<Longrightarrow>
   (\<forall>e \<in> set (jsLog (snd (autoCloseUsers f cfg now us st))). e = InfoStarting \<or> isAutoClosedEntry e)
   \<and> closedCount (snd (autoCloseUsers f cfg now us st))
       = length (filter isAutoClosedEntry (jsLog (snd (autoCloseUsers f cfg now us st))))
   \<and> (\<forall>n. InfoAutoClosed n \<in> set (jsLog (snd (autoCloseUsers f cfg now us st)))
          \<longleftrightarrow> n \<in> (\<lambda>x. uid (noUser x)) ` set (notifications (snd (autoCloseUsers f cfg now us st))))"
proof (induction us arbitrary: st)
  case Nil
  then show ?case by simp
next
  case (Cons u us)
  let ?tz = "case profileField timezone u of Some z \<Rightarrow> z | None \<Rightarrow> defaultTimezone cfg"
  let ?today = "findInRange (jsStore st) (uid u) (startOfDay ?tz now) (endOfDay ?tz now)"
  let ?auto = "newPunch (freshId (jsStore st)) (uid u) OUT (endOfDay ?tz now - 60000) Admin
                 (Some ''Auto-closed by system at midnight (missed punch out)'')"
  let ?st' = "st\<lparr>jsStore := jsStore st @ [?auto],
                 closedCount := closedCount st + 1,
                 jsLog := jsLog st @ [InfoAutoClosed (uid u)],
                 notifications := notifications st @
                   [\<lparr>noUser = u, inPunchTime = punchTime (last ?today),
                     outPunchTime = punchTime ?auto\<rparr>]\<rparr>"
  have "autoCloseUsers f cfg now (u # us) st = (Some (DatabaseError (uid u)), st)
      \<or> autoCloseUsers f cfg now (u # us) st = autoCloseUsers f cfg now us st
      \<or> autoCloseUsers f cfg now (u # us) st = autoCloseUsers f cfg now us ?st'"
    by (simp add: Let_def)
  then consider (stop) "autoCloseUsers f cfg now (u # us) st = (Some (DatabaseError (uid u)), st)"
    | (skip) "autoCloseUsers f cfg now (u # us) st = autoCloseUsers f cfg now us st"
    | (close) "autoCloseUsers f cfg now (u # us) st = autoCloseUsers f cfg now us ?st'"
    by blast
  then show ?case
  proof cases
    case stop
    with Cons.prems show ?thesis by simp
  next
    case skip
    with Cons.IH [OF Cons.prems] show ?thesis by simp
  next
    case close
    have ac: "isAutoClosedEntry (InfoAutoClosed (uid u))"
      by (simp add: isAutoClosedEntry_def)
    have a: "\<forall>e \<in> set (jsLog ?st'). e = InfoStarting \<or> isAutoClosedEntry e"
      using Cons.prems(1) ac by auto
    have b: "closedCount ?st' = length (filter isAutoClosedEntry (jsLog ?st'))"
      using Cons.prems(2) ac by simp
    have c: "\<forall>n. InfoAutoClosed n \<in> set (jsLog ?st')
          \<longleftrightarrow> n \<in> (\<lambda>x. uid (noUser x)) ` set (notifications ?st')"
      using Cons.prems(3) by auto
    from Cons.IH [OF a b c] close show ?thesis by simp
  qed
qed

lemma sendNotifications_set:
  "set (sendNotifications f ns lg) =
     set lg \<union> {ErrorNotification (uid (noUser x)) | x. x \<in> set ns \<and> emailFails f (uid (noUser x))}"
  by (induction ns arbitrary: lg) auto

lemma sendNotifications_closed:
  "filter isAutoClosedEntry (sendNotifications f ns lg) = filter isAutoClosedEntry lg"
  by (induction ns arbitrary: lg) (auto simp: isAutoClosedEntry_def)

lemma user_loop_log_entries:
  assumes "\<forall>e \<in> set lg. e = InfoStarting \<or> isAutoClosedEntry e"
  shows "ErrorNotification n \<notin> set lg" "InfoCompleted k \<notin> set lg" "ErrorAutoClose e \<notin> set lg"
  using assms by (auto simp: isAutoClosedEntry_def)

text \<open>
  C4 (as the code has it). In a run of \<open>autoCloseOpenPunches\<close> over users whose punches
  can be read and written, the job completes and reports its counts: as many
  notifications as closed punches, and as many closed punches as the log reports. A
  failed notification is caught and logged: the log has an error line for exactly the
  users whose punch was closed and whose e-mail failed, it ends with the completion line
  and has no line of the outer handler, and neither the result nor the punch log depends
  on which e-mails fail. When reading or writing the punches of a user fails, the error
  is logged by the outer handler, as the last line, and thrown again: the job ends with
  that error and no counts, the punch log is as the users before the failing one left
  it, so the users after it are not processed, and no notification is tried: the log has
  the lines of the punches closed before, no notification error and no completion line.
\<close>

theorem autoCloseOpenPunches_failure_isolation:
  assumes "\<forall>u \<in> set us1. \<not> findFails f (uid u) \<and> \<not> createFails f (uid u)"
  shows "(\<exists>r store' lg.
            autoCloseOpenPunches f cfg us1 store now = (Inr r, store', lg)
            \<and> acSuccess r \<and> notificationsSent r = acClosedCount r
            \<and> acClosedCount r = length (filter isAutoClosedEntry lg)
            \<and> (\<forall>n. ErrorNotification n \<in> set lg
                    \<longleftrightarrow> emailFails f n \<and> InfoAutoClosed n \<in> set lg)
            \<and> last lg = InfoCompleted (acClosedCount r)
            \<and> (\<forall>e. ErrorAutoClose e \<notin> set lg)
            \<and> fst (autoCloseOpenPunches (f\<lparr>emailFails := g\<rparr>) cfg us1 store now) = Inr r
            \<and> fst (snd (autoCloseOpenPunches (f\<lparr>emailFails := g\<rparr>) cfg us1 store now)) = store')
    \<and> (userFails f cfg now (fst (snd (autoCloseOpenPunches f cfg us1 store now))) u \<longrightarrow>
          fst (autoCloseOpenPunches f cfg (us1 @ u # us2) store now) = Inl (DatabaseError (uid u))
          \<and> fst (snd (autoCloseOpenPunches f cfg (us1 @ u # us2) store now))
              = fst (snd (autoCloseOpenPunches f cfg us1 store now))
          \<and> last (snd (snd (autoCloseOpenPunches f cfg (us1 @ u # us2) store now)))
              = ErrorAutoClose (DatabaseError (uid u))
          \<and> (\<forall>n. InfoCompleted n
                 \<notin> set (snd (snd (autoCloseOpenPunches f cfg (us1 @ u # us2) store now))))
          \<and> (\<forall>n. ErrorNotification n
                 \<notin> set (snd (snd (autoCloseOpenPunches f cfg (us1 @ u # us2) store now))))
          \<and> (\<forall>n. InfoAutoClosed n
                   \<in> set (snd (snd (autoCloseOpenPunches f cfg (us1 @ u # us2) store now)))
                 \<longleftrightarrow> InfoAutoClosed n
                   \<in> set (snd (snd (autoCloseOpenPunches f cfg us1 store now)))))"
proof -
  let ?st0 = "\<lparr>jsStore = store, closedCount = 0, notifications = [], jsLog = [InfoStarting]\<rparr>"
  obtain e st1 where run: "autoCloseUsers f cfg now us1 ?st0 = (e, st1)"
    by (cases "autoCloseUsers f cfg now us1 ?st0")
  from autoCloseUsers_no_faults [OF assms, of cfg now ?st0] run have e: "e = None" by simp
  from autoCloseUsers_queue [of ?st0 f cfg now us1] run
  have q: "length (notifications st1) = closedCount st1" by simp
  have "(\<forall>e \<in> set (jsLog (snd (autoCloseUsers f cfg now us1 ?st0))).
            e = InfoStarting \<or> isAutoClosedEntry e)
     \<and> closedCount (snd (autoCloseUsers f cfg now us1 ?st0))
         = length (filter isAutoClosedEntry (jsLog (snd (autoCloseUsers f cfg now us1 ?st0))))
     \<and> (\<forall>n. InfoAutoClosed n \<in> set (jsLog (snd (autoCloseUsers f cfg now us1 ?st0)))
          \<longleftrightarrow> n \<in> (\<lambda>x. uid (noUser x))
                   ` set (notifications (snd (autoCloseUsers f cfg now us1 ?st0))))"
    by (rule autoCloseUsers_log) (simp_all add: isAutoClosedEntry_def)
  then have j1: "\<forall>e \<in> set (jsLog st1). e = InfoStarting \<or> isAutoClosedEntry e"
    and j2: "closedCount st1 = length (filter isAutoClosedEntry (jsLog st1))"
    and j3: "\<forall>n. InfoAutoClosed n \<in> set (jsLog st1)
          \<longleftrightarrow> n \<in> (\<lambda>x. uid (noUser x)) ` set (notifications st1)"
    unfolding run by simp_all
  note none = user_loop_log_entries [OF j1]
  define lg where
    "lg = sendNotifications f (notifications st1) (jsLog st1) @ [InfoCompleted (closedCount st1)]"
  define r where "r = \<lparr>acSuccess = True, acClosedCount = closedCount st1,
                        notificationsSent = length (notifications st1)\<rparr>"
  have whole: "autoCloseOpenPunches f cfg us1 store now = (Inr r, jsStore st1, lg)"
    using run e by (simp add: autoCloseOpenPunches_def lg_def r_def)
  have other: "fst (autoCloseOpenPunches (f\<lparr>emailFails := g\<rparr>) cfg us1 store now) = Inr r"
    "fst (snd (autoCloseOpenPunches (f\<lparr>emailFails := g\<rparr>) cfg us1 store now)) = jsStore st1"
    using run e by (simp_all add: autoCloseOpenPunches_def autoCloseUsers_email r_def)
  have cnt: "acClosedCount r = length (filter isAutoClosedEntry lg)"
    by (simp add: r_def lg_def sendNotifications_closed j2 isAutoClosedEntry_def)
  have closed_lg: "\<And>n. InfoAutoClosed n \<in> set lg \<longleftrightarrow> InfoAutoClosed n \<in> set (jsLog st1)"
    by (auto simp: lg_def sendNotifications_set)
  have err: "\<forall>n. ErrorNotification n \<in> set lg \<longleftrightarrow> emailFails f n \<and> InfoAutoClosed n \<in> set lg"
  proof
    fix n
    have "ErrorNotification n \<in> set lg
        \<longleftrightarrow> (\<exists>x \<in> set (notifications st1). uid (noUser x) = n \<and> emailFails f n)"
      using none(1) [of n] by (auto simp: lg_def sendNotifications_set)
    also have "\<dots> \<longleftrightarrow> emailFails f n \<and> n \<in> (\<lambda>x. uid (noUser x)) ` set (notifications st1)"
      by auto
    also have "\<dots> \<longleftrightarrow> emailFails f n \<and> InfoAutoClosed n \<in> set lg"
      using j3 closed_lg by simp
    finally show "ErrorNotification n \<in> set lg \<longleftrightarrow> emailFails f n \<and> InfoAutoClosed n \<in> set lg" .
  qed
  have lst: "last lg = InfoCompleted (acClosedCount r)"
    by (simp add: lg_def r_def)
  have noabort: "\<forall>e. ErrorAutoClose e \<notin> set lg"
    using none(3) by (auto simp: lg_def sendNotifications_set)
  have first: "\<exists>r store' lg.
            autoCloseOpenPunches f cfg us1 store now = (Inr r, store', lg)
            \<and> acSuccess r \<and> notificationsSent r = acClosedCount r
            \<and> acClosedCount r = length (filter isAutoClosedEntry lg)
            \<and> (\<forall>n. ErrorNotification n \<in> set lg
                    \<longleftrightarrow> emailFails f n \<and> InfoAutoClosed n \<in> set lg)
            \<and> last lg = InfoCompleted (acClosedCount r)
            \<and> (\<forall>e. ErrorAutoClose e \<notin> set lg)
            \<and> fst (autoCloseOpenPunches (f\<lparr>emailFails := g\<rparr>) cfg us1 store now) = Inr r
            \<and> fst (snd (autoCloseOpenPunches (f\<lparr>emailFails := g\<rparr>) cfg us1 store now)) = store'"
  proof (intro exI conjI)
    show "autoCloseOpenPunches f cfg us1 store now = (Inr r, jsStore st1, lg)" by (rule whole)
    show "acSuccess r" by (simp add: r_def)
    show "notificationsSent r = acClosedCount r" by (simp add: r_def q)
    show "acClosedCount r = length (filter isAutoClosedEntry lg)" by (rule cnt)
    show "\<forall>n. ErrorNotification n \<in> set lg \<longleftrightarrow> emailFails f n \<and> InfoAutoClosed n \<in> set lg"
      by (rule err)
    show "last lg = InfoCompleted (acClosedCount r)" by (rule lst)
    show "\<forall>e. ErrorAutoClose e \<notin> set lg" by (rule noabort)
    show "fst (autoCloseOpenPunches (f\<lparr>emailFails := g\<rparr>) cfg us1 store now) = Inr r"
      by (rule other(1))
    show "fst (snd (autoCloseOpenPunches (f\<lparr>emailFails := g\<rparr>) cfg us1 store now)) = jsStore st1"
      by (rule other(2))
  qed
  have store1: "fst (snd (autoCloseOpenPunches f cfg us1 store now)) = jsStore st1"
    and log1: "snd (snd (autoCloseOpenPunches f cfg us1 store now)) = lg"
    by (simp_all add: whole)
  have second: "userFails f cfg now (fst (snd (autoCloseOpenPunches f cfg us1 store now))) u \<longrightarrow>
          fst (autoCloseOpenPunches f cfg (us1 @ u # us2) store now) = Inl (DatabaseError (uid u))
          \<and> fst (snd (autoCloseOpenPunches f cfg (us1 @ u # us2) store now))
              = fst (snd (autoCloseOpenPunches f cfg us1 store now))
          \<and> last (snd (snd (autoCloseOpenPunches f cfg (us1 @ u # us2) store now)))
              = ErrorAutoClose (DatabaseError (uid u))
          \<and> (\<forall>n. InfoCompleted n
                 \<notin> set (snd (snd (autoCloseOpenPunches f cfg (us1 @ u # us2) store now))))
          \<and> (\<forall>n. ErrorNotification n
                 \<notin> set (snd (snd (autoCloseOpenPunches f cfg (us1 @ u # us2) store now))))
          \<and> (\<forall>n. InfoAutoClosed n
                   \<in> set (snd (snd (autoCloseOpenPunches f cfg (us1 @ u # us2) store now)))
                 \<longleftrightarrow> InfoAutoClosed n
                   \<in> set (snd (snd (autoCloseOpenPunches f cfg us1 store now))))"
  proof
    assume "userFails f cfg now (fst (snd (autoCloseOpenPunches f cfg us1 store now))) u"
    then have "userFails f cfg now (jsStore st1) u" by (simp only: store1)
    then have "autoCloseUsers f cfg now (u # us2) st1 = (Some (DatabaseError (uid u)), st1)"
      by (rule autoCloseUsers_failing_user)
    then have "autoCloseUsers f cfg now (us1 @ u # us2) ?st0 = (Some (DatabaseError (uid u)), st1)"
      using run e by (simp only: autoCloseUsers_append split: prod.splits option.splits) simp
    then have big: "autoCloseOpenPunches f cfg (us1 @ u # us2) store now
        = (Inl (DatabaseError (uid u)), jsStore st1,
           jsLog st1 @ [ErrorAutoClose (DatabaseError (uid u))])"
      by (simp add: autoCloseOpenPunches_def)
    show "fst (autoCloseOpenPunches f cfg (us1 @ u # us2) store now) = Inl (DatabaseError (uid u))
          \<and> fst (snd (autoCloseOpenPunches f cfg (us1 @ u # us2) store now))
              = fst (snd (autoCloseOpenPunches f cfg us1 store now))
          \<and> last (snd (snd (autoCloseOpenPunches f cfg (us1 @ u # us2) store now)))
              = ErrorAutoClose (DatabaseError (uid u))
          \<and> (\<forall>n. InfoCompleted n
                 \<notin> set (snd (snd (autoCloseOpenPunches f cfg (us1 @ u # us2) store now))))
          \<and> (\<forall>n. ErrorNotification n
                 \<notin> set (snd (snd (autoCloseOpenPunches f cfg (us1 @ u # us2) store now))))
          \<and> (\<forall>n. InfoAutoClosed n
                   \<in> set (snd (snd (autoCloseOpenPunches f cfg (us1 @ u # us2) store now)))
                 \<longleftrightarrow> InfoAutoClosed n
                   \<in> set (snd (snd (autoCloseOpenPunches f cfg us1 store now))))"
      unfolding big store1 log1
      using none(1) none(2) closed_lg by simp
  qed
  from first second show ?thesis by (rule conjI)
qed

text \<open>
  Three users with an open punch; the e-mail to user 7 fails and the write for user 8
  fails. Over user 7 alone the job closes one punch, logs the failed e-mail and reports
  its count. Over the three users it ends with the error of user 8 as last line of the
  log, having closed the punch of user 7 only.
\<close>

theorem autoCloseOpenPunches_failure_isolation_witness:
  "autoCloseOpenPunches
      \<lparr>findFails = (\<lambda>n. False), createFails = (\<lambda>n. n = 8), emailFails = (\<lambda>n. n = 7)\<rparr>
      exampleConfig [exampleUser]
      [newPunch 1 7 IN 1704099600000 Manual None, newPunch 2 8 IN 1704099700000 Manual None,
       newPunch 3 9 IN 1704099800000 Manual None] 1704153540000
     = (Inr \<lparr>acSuccess = True, acClosedCount = 1, notificationsSent = 1\<rparr>,
        [newPunch 1 7 IN 1704099600000 Manual None, newPunch 2 8 IN 1704099700000 Manual None,
         newPunch 3 9 IN 1704099800000 Manual None,
         newPunch 4 7 OUT 1704153539999 Admin
           (Some ''Auto-closed by system at midnight (missed punch out)'')],
        [InfoStarting, InfoAutoClosed 7, ErrorNotification 7, InfoCompleted 1])
   \<and> fst (autoCloseOpenPunches
      \<lparr>findFails = (\<lambda>n. False), createFails = (\<lambda>n. n = 8), emailFails = (\<lambda>n. n = 7)\<rparr>
      exampleConfig ([exampleUser] @ otherUser 8 # [otherUser 9])
      [newPunch 1 7 IN 1704099600000 Manual None, newPunch 2 8 IN 1704099700000 Manual None,
       newPunch 3 9 IN 1704099800000 Manual None] 1704153540000)
     = Inl (DatabaseError 8)
   \<and> fst (snd (autoCloseOpenPunches
      \<lparr>findFails = (\<lambda>n. False), createFails = (\<lambda>n. n = 8), emailFails = (\<lambda>n. n = 7)\<rparr>
      exampleConfig ([exampleUser] @ otherUser 8 # [otherUser 9])
      [newPunch 1 7 IN 1704099600000 Manual None, newPunch 2 8 IN 1704099700000 Manual None,
       newPunch 3 9 IN 1704099800000 Manual None] 1704153540000))
     = [newPunch 1 7 IN 1704099600000 Manual None, newPunch 2 8 IN 1704099700000 Manual None,
         newPunch 3 9 IN 1704099800000 Manual None,
         newPunch 4 7 OUT 1704153539999 Admin
           (Some ''Auto-closed by system at midnight (missed punch out)'')]
   \<and> last (snd (snd (autoCloseOpenPunches
      \<lparr>findFails = (\<lambda>n. False), createFails = (\<lambda>n. n = 8), emailFails = (\<lambda>n. n = 7)\<rparr>
      exampleConfig ([exampleUser] @ otherUser 8 # [otherUser 9])
      [newPunch 1 7 IN 1704099600000 Manual None, newPunch 2 8 IN 1704099700000 Manual None,
       newPunch 3 9 IN 1704099800000 Manual None] 1704153540000)))
     = ErrorAutoClose (DatabaseError 8)"
proof -
  let ?f = "\<lparr>findFails = (\<lambda>n. False), createFails = (\<lambda>n. n = 8), emailFails = (\<lambda>n. n = 7)\<rparr>"
  let ?store = "[newPunch 1 7 IN 1704099600000 Manual None,
       newPunch 2 8 IN 1704099700000 Manual None, newPunch 3 9 IN 1704099800000 Manual None]"
  let ?store1 = "[newPunch 1 7 IN 1704099600000 Manual None,
       newPunch 2 8 IN 1704099700000 Manual None, newPunch 3 9 IN 1704099800000 Manual None,
       newPunch 4 7 OUT 1704153539999 Admin
           (Some ''Auto-closed by system at midnight (missed punch out)'')]"
  let ?big = "autoCloseOpenPunches ?f exampleConfig ([exampleUser] @ otherUser 8 # [otherUser 9])
       ?store 1704153540000"
  have ok: "\<forall>u \<in> set [exampleUser]. \<not> findFails ?f (uid u) \<and> \<not> createFails ?f (uid u)"
    by (simp add: exampleUser_def)
  have run: "autoCloseOpenPunches ?f exampleConfig [exampleUser] ?store 1704153540000
     = (Inr \<lparr>acSuccess = True, acClosedCount = 1, notificationsSent = 1\<rparr>, ?store1,
        [InfoStarting, InfoAutoClosed 7, ErrorNotification 7, InfoCompleted 1])"
    by code_simp
  have fails: "userFails ?f exampleConfig 1704153540000 ?store1 (otherUser 8)"
    by code_simp
  have s1: "fst (snd (autoCloseOpenPunches ?f exampleConfig [exampleUser] ?store 1704153540000))
      = ?store1"
    by (simp only: run fst_conv snd_conv)
  have uid8: "uid (otherUser 8) = 8" by (simp add: otherUser_def)
  from autoCloseOpenPunches_failure_isolation
      [OF ok, of exampleConfig ?store 1704153540000 "\<lambda>n. False" "otherUser 8" "[otherUser 9]"]
  have "userFails ?f exampleConfig 1704153540000
          (fst (snd (autoCloseOpenPunches ?f exampleConfig [exampleUser] ?store 1704153540000)))
          (otherUser 8) \<longrightarrow>
        fst ?big = Inl (DatabaseError (uid (otherUser 8)))
        \<and> fst (snd ?big)
            = fst (snd (autoCloseOpenPunches ?f exampleConfig [exampleUser] ?store 1704153540000))
        \<and> last (snd (snd ?big)) = ErrorAutoClose (DatabaseError (uid (otherUser 8)))"
    by blast
  then have "fst ?big = Inl (DatabaseError 8) \<and> fst (snd ?big) = ?store1
        \<and> last (snd (snd ?big)) = ErrorAutoClose (DatabaseError 8)"
    using fails unfolding s1 uid8 by blast
  with run show ?thesis by blast
qed

text \<open>
  C4 as stated lets the job go on after a user's failure. The write for user 7 fails:
  the job ends with the error, and the open punch of user 8 stays open.
\<close>

theorem autoCloseOpenPunches_abort_counterexample:
  "hasOpenPunchToday exampleConfig 1704153540000
      [newPunch 1 7 IN 1704099600000 Manual None, newPunch 2 8 IN 1704099700000 Manual None]
      (otherUser 8)
   \<and> autoCloseOpenPunches
      \<lparr>findFails = (\<lambda>n. False), createFails = (\<lambda>n. n = 7), emailFails = (\<lambda>n. False)\<rparr>
      exampleConfig [exampleUser, otherUser 8]
      [newPunch 1 7 IN 1704099600000 Manual None, newPunch 2 8 IN 1704099700000 Manual None]
      1704153540000
     = (Inl (DatabaseError 7),
        [newPunch 1 7 IN 1704099600000 Manual None, newPunch 2 8 IN 1704099700000 Manual None],
        [InfoStarting, ErrorAutoClose (DatabaseError 7)])"
  by code_simp

subsection \<open>The weekly summary in closed form\<close>

lemma weekLoop_closed:
  "i \<le> 7 \<Longrightarrow>
   weekLoop tz now ws ps wds target i acc =
     (fst acc @ map (loopEntry tz now ws ps wds target) [i..<7],
      fst (snd acc) + sum_list (map (loopWorked tz now ws ps) (filter (loopWorking tz ws wds) [i..<7])),
      snd (snd acc) + length (filter (loopWorking tz ws wds) [i..<7]))"
proof (induction tz now ws ps wds target i acc rule: weekLoop.induct)
  case (1 tz now ws ps wds target i acc)
  show ?case
  proof (cases "i < 7")
    case False
    with "1.prems" have "i = 7" by simp
    then show ?thesis by (subst weekLoop.simps) simp
  next
    case True
    then have upt: "[i..<7] = i # [i + 1..<7]" by (simp add: upt_conv_Cons)
    have le: "i + 1 \<le> 7" using True by simp
    note IH = "1.IH" [OF True refl refl refl refl refl refl refl le]
    show ?thesis
      apply (subst weekLoop.simps)
      apply (simp only: True if_True Let_def IH upt)
      apply (simp add: loopEntry_def loopWorked_def loopWorking_def Let_def)
      done
  qed
qed

lemma getWeeklySummary_closed:
  "getWeeklySummary cfg store now u wo =
     \<lparr>weekStart = startOfWeek (getTimezone cfg u) now wo,
      weekEnd = startOfWeek (getTimezone cfg u) now wo + 7 * 86400000 - 1,
      totalWorkedMinutes =
        round2 (sum_list (map (workedOnDay cfg store now u wo)
                            (filter (isWorkingWeekDay cfg now u wo) [0..<7]))),
      weeklyTargetMinutes =
        real (length (filter (isWorkingWeekDay cfg now u wo) [0..<7])) * getDailyWorkTarget cfg u,
      progressPercent =
        jsMin100 (jsRound (jsTimes
          (jsDivide
             (sum_list (map (workedOnDay cfg store now u wo)
                          (filter (isWorkingWeekDay cfg now u wo) [0..<7])))
             (real (length (filter (isWorkingWeekDay cfg now u wo) [0..<7]))
                * getDailyWorkTarget cfg u))
          100)),
      workingDaysCount = length (filter (isWorkingWeekDay cfg now u wo) [0..<7]),
      dailyData =
        map (loopEntry (getTimezone cfg u) now (startOfWeek (getTimezone cfg u) now wo)
               (weekPunches cfg store now u wo) (userWorkingDays cfg u)
               (getDailyWorkTarget cfg u)) [0..<7]\<rparr>"
proof -
  have w: "workedOnDay cfg store now u wo =
      loopWorked (getTimezone cfg u) now (startOfWeek (getTimezone cfg u) now wo)
        (weekPunches cfg store now u wo)"
    by (rule ext) (simp add: workedOnDay_def)
  have d: "isWorkingWeekDay cfg now u wo =
      loopWorking (getTimezone cfg u) (startOfWeek (getTimezone cfg u) now wo)
        (userWorkingDays cfg u)"
    by (rule ext) (simp add: isWorkingWeekDay_def)
  show ?thesis
    unfolding getWeeklySummary_def Let_def w d
    by (simp add: weekLoop_closed weekPunches_def userWorkingDays_def)
qed

subsection \<open>C6: weekly target and progress\<close>

text \<open>
  C6. The weekly target of a summary is the number of working days times the daily
  target, and a progress that is computed from a target other than zero is a number
  of at most 100. For a user whose working days are the empty list the count and the
  target are 0 and the total is 0, so the progress is \<open>0 / 0\<close>: \<open>NaN\<close>, which the
  \<open>Math.min(100, ...)\<close> of the code does not cap.
\<close>

theorem getWeeklySummary_weekly_target:
  "weeklyTargetMinutes (getWeeklySummary cfg store now u wo)
     = real (workingDaysCount (getWeeklySummary cfg store now u wo)) * getDailyWorkTarget cfg u
   \<and> (weeklyTargetMinutes (getWeeklySummary cfg store now u wo) \<noteq> 0 \<longrightarrow>
        (\<exists>p. progressPercent (getWeeklySummary cfg store now u wo) = Num p \<and> p \<le> 100))
   \<and> (userWorkingDays cfg u = [] \<longrightarrow>
        workingDaysCount (getWeeklySummary cfg store now u wo) = 0
        \<and> weeklyTargetMinutes (getWeeklySummary cfg store now u wo) = 0
        \<and> progressPercent (getWeeklySummary cfg store now u wo) = NaN)"
proof (intro conjI impI)
  show "weeklyTargetMinutes (getWeeklySummary cfg store now u wo)
     = real (workingDaysCount (getWeeklySummary cfg store now u wo)) * getDailyWorkTarget cfg u"
    unfolding getWeeklySummary_closed by simp
next
  assume "weeklyTargetMinutes (getWeeklySummary cfg store now u wo) \<noteq> 0"
  then show "\<exists>p. progressPercent (getWeeklySummary cfg store now u wo) = Num p \<and> p \<le> 100"
    unfolding getWeeklySummary_closed
    by (simp add: jsDivide_def jsTimes_def jsRound_def jsMin100_def del: upt_Suc)
next
  assume e: "userWorkingDays cfg u = []"
  then have none: "filter (isWorkingWeekDay cfg now u wo) [0..<7] = []"
    by (simp add: isWorkingWeekDay_def loopWorking_def del: upt_Suc)
  show "workingDaysCount (getWeeklySummary cfg store now u wo) = 0"
    unfolding getWeeklySummary_closed none by simp
  show "weeklyTargetMinutes (getWeeklySummary cfg store now u wo) = 0"
    unfolding getWeeklySummary_closed none by simp
  show "progressPercent (getWeeklySummary cfg store now u wo) = NaN"
    unfolding getWeeklySummary_closed none
    by (simp add: jsDivide_def jsTimes_def jsRound_def jsMin100_def)
qed

text \<open>
  The week from 31 December 2023, seen on 10 January 2024: for the user without working
  days the progress is NaN; for the example user it is 20 percent of 2400 minutes.
\<close>

theorem getWeeklySummary_weekly_target_witness:
  "userWorkingDays exampleConfig noWorkingDaysUser = []
   \<and> workingDaysCount (getWeeklySummary exampleConfig exampleWeek 1704880800000
                           noWorkingDaysUser 1) = 0
   \<and> weeklyTargetMinutes (getWeeklySummary exampleConfig exampleWeek 1704880800000
                           noWorkingDaysUser 1) = 0
   \<and> progressPercent (getWeeklySummary exampleConfig exampleWeek 1704880800000
                           noWorkingDaysUser 1) = NaN
   \<and> weeklyTargetMinutes (getWeeklySummary exampleConfig exampleWeek 1704880800000
                           exampleUser 1) = 5 * 480
   \<and> progressPercent (getWeeklySummary exampleConfig exampleWeek 1704880800000
                           exampleUser 1) = Num 20"
proof -
  have e: "userWorkingDays exampleConfig noWorkingDaysUser = []"
    by code_simp
  have ok: "weeklyTargetMinutes (getWeeklySummary exampleConfig exampleWeek 1704880800000
                           exampleUser 1) = 5 * 480
      \<and> progressPercent (getWeeklySummary exampleConfig exampleWeek 1704880800000
                           exampleUser 1) = Num 20"
    by code_simp
  from getWeeklySummary_weekly_target
    [of exampleConfig exampleWeek 1704880800000 noWorkingDaysUser 1] e
  have "workingDaysCount (getWeeklySummary exampleConfig exampleWeek 1704880800000
                           noWorkingDaysUser 1) = 0
   \<and> weeklyTargetMinutes (getWeeklySummary exampleConfig exampleWeek 1704880800000
                           noWorkingDaysUser 1) = 0
   \<and> progressPercent (getWeeklySummary exampleConfig exampleWeek 1704880800000
                           noWorkingDaysUser 1) = NaN"
    by blast
  with e ok show ?thesis by blast
qed

subsection \<open>C10: the weekly total counts working days only\<close>

text \<open>
  C10. The total of a weekly summary is the sum, rounded to two decimals, of the minutes
  worked on those of the seven days whose weekday name is among the user's working days,
  and the progress is computed from that sum. Each of the seven entries of
  \<open>dailyData\<close> reports the minutes worked on its day, working day or not.
\<close>

theorem getWeeklySummary_total_over_working_days:
  "totalWorkedMinutes (getWeeklySummary cfg store now u wo)
     = round2 (sum_list (map (workedOnDay cfg store now u wo)
                           (filter (isWorkingWeekDay cfg now u wo) [0..<7])))
   \<and> progressPercent (getWeeklySummary cfg store now u wo)
     = jsMin100 (jsRound (jsTimes
         (jsDivide
            (sum_list (map (workedOnDay cfg store now u wo)
                         (filter (isWorkingWeekDay cfg now u wo) [0..<7])))
            (weeklyTargetMinutes (getWeeklySummary cfg store now u wo)))
         100))
   \<and> length (dailyData (getWeeklySummary cfg store now u wo)) = 7
   \<and> (\<forall>i < 7.
         workedMinutes (dailyData (getWeeklySummary cfg store now u wo) ! i)
           = round2 (workedOnDay cfg store now u wo i)
         \<and> isWorkingDay (dailyData (getWeeklySummary cfg store now u wo) ! i)
           = isWorkingWeekDay cfg now u wo i)"
proof -
  have nth: "\<And>i f. i < 7 \<Longrightarrow> map f [0..<7] ! i = f i"
    by simp
  show ?thesis
    unfolding getWeeklySummary_closed
    by (simp add: nth loopEntry_def workedOnDay_def isWorkingWeekDay_def Let_def del: upt_Suc)
qed

text \<open>
  Eight hours on Monday and three hours on Saturday: the total is 480 minutes, and the
  entry of Saturday, not a working day, shows its 180 minutes.
\<close>

theorem getWeeklySummary_total_over_working_days_witness:
  "totalWorkedMinutes (getWeeklySummary exampleConfig exampleWeek 1704880800000 exampleUser 1) = 480
   \<and> workedMinutes (dailyData (getWeeklySummary exampleConfig exampleWeek 1704880800000
                                   exampleUser 1) ! 6) = 180
   \<and> \<not> isWorkingDay (dailyData (getWeeklySummary exampleConfig exampleWeek 1704880800000
                                     exampleUser 1) ! 6)
   \<and> workedMinutes (dailyData (getWeeklySummary exampleConfig exampleWeek 1704880800000
                                   exampleUser 1) ! 1) = 480
   \<and> isWorkingDay (dailyData (getWeeklySummary exampleConfig exampleWeek 1704880800000
                                   exampleUser 1) ! 1)"
proof -
  let ?s = "getWeeklySummary exampleConfig exampleWeek 1704880800000 exampleUser 1"
  have sat: "round2 (workedOnDay exampleConfig exampleWeek 1704880800000 exampleUser 1 6) = 180
      \<and> \<not> isWorkingWeekDay exampleConfig 1704880800000 exampleUser 1 6"
    by code_simp
  have mon: "round2 (workedOnDay exampleConfig exampleWeek 1704880800000 exampleUser 1 1) = 480
      \<and> isWorkingWeekDay exampleConfig 1704880800000 exampleUser 1 1"
    by code_simp
  have tot: "round2 (sum_list (map (workedOnDay exampleConfig exampleWeek 1704880800000 exampleUser 1)
                 (filter (isWorkingWeekDay exampleConfig 1704880800000 exampleUser 1) [0..<7])))
      = 480"
    by code_simp
  note T = getWeeklySummary_total_over_working_days
    [of exampleConfig exampleWeek 1704880800000 exampleUser 1]
  from T have a: "totalWorkedMinutes ?s = 480"
    unfolding tot by (rule conjunct1)
  from T have d: "\<forall>i < 7. workedMinutes (dailyData ?s ! i)
           = round2 (workedOnDay exampleConfig exampleWeek 1704880800000 exampleUser 1 i)
         \<and> isWorkingDay (dailyData ?s ! i)
           = isWorkingWeekDay exampleConfig 1704880800000 exampleUser 1 i"
    by blast
  have "(6::nat) < 7" "(1::nat) < 7" by simp_all
  with d have
    "workedMinutes (dailyData ?s ! 6)
       = round2 (workedOnDay exampleConfig exampleWeek 1704880800000 exampleUser 1 6)"
    "isWorkingDay (dailyData ?s ! 6)
       = isWorkingWeekDay exampleConfig 1704880800000 exampleUser 1 6"
    "workedMinutes (dailyData ?s ! 1)
       = round2 (workedOnDay exampleConfig exampleWeek 1704880800000 exampleUser 1 1)"
    "isWorkingDay (dailyData ?s ! 1)
       = isWorkingWeekDay exampleConfig 1704880800000 exampleUser 1 1"
    by blast+
  with sat mon a show ?thesis by (simp only: simp_thms)
qed

end
